theory Spec2Isabelle
  imports Complex_Main
begin

section \<open>The volumetric map\<close>

text \<open>
  The map is voxblox's sparse layer: a hash map from block indices to blocks, each block a
  dense array of voxels addressed by a linear index, with a per-block "updated" bit set.
  The integrator uses the \<open>kEsdf\<close> bit of that set to track the blocks it still has to
  visit. Blocks and voxels are reached through pointers and references in the C++ code;
  here every write goes through the layer, which is passed and returned explicitly.

  The C++ \<open>int\<close> fields are unbounded integers here: signed overflow is undefined
  behaviour in C++, so the model says what the code does as long as no counter leaves the
  range of \<open>int\<close>. The \<open>float\<close> fields are reals. The integrator only compares them with
  constants, and a comparison of floats is exact; the decimal \<open>1e-6\<close> stands for the
  double nearest to it, and since no \<open>float\<close> lies between these two numbers every test of
  a weight has the same outcome here as in the code.
\<close>

type_synonym BlockIndex = "int \<times> int \<times> int"
type_synonym VoxelIndex = "int \<times> int \<times> int"
type_synonym VoxelKey = "BlockIndex \<times> VoxelIndex"

text \<open>The fields of \<open>voxblox::TsdfVoxel\<close> that the two source files read or write.\<close>

record TsdfVoxel =
  distance :: real
  weight :: real
  last_lidar_occupied :: int
  last_occupied :: int
  occ_counter :: int
  ever_free :: bool
  dynamic :: bool
  curr_occupied :: int
  last_static :: int
  moving :: bool
  clustering_processed :: bool

record Block =
  voxels :: "TsdfVoxel list"
  updated_esdf :: bool

text \<open>
  The layer's hash map, as an association list: its order is the iteration order of the
  hash map, which \<open>getAllUpdatedBlocks\<close> follows. A hash map holds one block per index;
  nothing below depends on it, a lookup finds the first entry and a write goes to every
  entry of the index.
\<close>

type_synonym Layer = "(BlockIndex \<times> Block) list"

definition getBlockPtrByIndex :: "Layer \<Rightarrow> BlockIndex \<Rightarrow> Block option" where
  "getBlockPtrByIndex L b = map_of L b"

definition hasBlock :: "Layer \<Rightarrow> BlockIndex \<Rightarrow> bool" where
  "hasBlock L b = (getBlockPtrByIndex L b \<noteq> None)"

definition getAllUpdatedBlocks :: "Layer \<Rightarrow> BlockIndex list" where
  "getAllUpdatedBlocks L = map fst (filter (\<lambda>kb. updated_esdf (snd kb)) L)"

text \<open>
  Reading a voxel of a block by its linear index. The C++ accessor does not check the
  index in a release build: an index outside the array is undefined behaviour, here
  \<open>None\<close>.
\<close>

definition getVoxelByLinearIndex :: "Block \<Rightarrow> nat \<Rightarrow> TsdfVoxel option" where
  "getVoxelByLinearIndex blk i =
     (if i < length (voxels blk) then Some (voxels blk ! i) else None)"

text \<open>Writing through a voxel reference, and through a block pointer.\<close>

definition modifyBlock :: "Layer \<Rightarrow> BlockIndex \<Rightarrow> (Block \<Rightarrow> Block) \<Rightarrow> Layer" where
  "modifyBlock L b g = map (\<lambda>kb. (fst kb, if fst kb = b then g (snd kb) else snd kb)) L"

definition setVoxel :: "Layer \<Rightarrow> BlockIndex \<Rightarrow> nat \<Rightarrow> TsdfVoxel \<Rightarrow> Layer" where
  "setVoxel L b i v = modifyBlock L b (\<lambda>blk. blk\<lparr>voxels := (voxels blk)[i := v]\<rparr>)"

text \<open>The voxel stored under a block index and a linear index, if both exist.\<close>

definition voxelAt :: "Layer \<Rightarrow> BlockIndex \<Rightarrow> nat \<Rightarrow> TsdfVoxel option" where
  "voxelAt L b i =
     (case getBlockPtrByIndex L b of None \<Rightarrow> None | Some blk \<Rightarrow> getVoxelByLinearIndex blk i)"

section \<open>The ever-free integrator\<close>

record Config =
  counter_to_reset :: int
  temporal_buffer :: int
  burn_in_period :: int
  tsdf_occupancy_threshold :: real
  neighbor_connectivity :: int
  num_threads :: int

text \<open>\<open>EverFreeIntegrator::Config::checkParams\<close>: the constructor accepts only such a configuration.\<close>

definition checkParams :: "Config \<Rightarrow> bool" where
  "checkParams c \<longleftrightarrow>
     (neighbor_connectivity c = 6 \<or> neighbor_connectivity c = 18 \<or> neighbor_connectivity c = 26)
     \<and> num_threads c \<ge> 1 \<and> temporal_buffer c \<ge> 0"

text \<open>
  The layer's constant and the two index conversions of a block are voxblox code outside
  the two source files, so they are parameters: \<open>computeVoxelIndexFromLinearIndex\<close> and
  \<open>computeLinearIndexFromVoxelIndex\<close> convert between the linear index of a voxel in its
  block and its three-dimensional voxel index.
\<close>

record BlockGeometry =
  voxels_per_side :: nat
  computeVoxelIndexFromLinearIndex :: "nat \<Rightarrow> VoxelIndex"
  computeLinearIndexFromVoxelIndex :: "VoxelIndex \<Rightarrow> nat"

text \<open>
  The members of the integrator object. The neighbourhood search is code outside the two
  source files as well: \<open>neighborhood_search\<close> stands for
  \<open>neighborhood_search_.search(block_index, voxel_index, voxels_per_side_)\<close>.
\<close>

record EverFreeIntegrator = BlockGeometry +
  config :: Config
  neighborhood_search :: "BlockIndex \<Rightarrow> VoxelIndex \<Rightarrow> VoxelKey list"

definition voxels_per_block :: "'a BlockGeometry_scheme \<Rightarrow> nat" where
  "voxels_per_block G = voxels_per_side G * voxels_per_side G * voxels_per_side G"

definition getVoxelByVoxelIndex :: "'a BlockGeometry_scheme \<Rightarrow> Block \<Rightarrow> VoxelIndex \<Rightarrow> TsdfVoxel option" where
  "getVoxelByVoxelIndex G blk vi = getVoxelByLinearIndex blk (computeLinearIndexFromVoxelIndex G vi)"

subsection \<open>updateOccupancyCounter\<close>

definition updateOccupancyCounter :: "Config \<Rightarrow> TsdfVoxel \<Rightarrow> int \<Rightarrow> TsdfVoxel" where
  "updateOccupancyCounter c voxel frame_counter =
     (let voxel' =
        (if last_occupied voxel \<ge> frame_counter - temporal_buffer c
         then voxel\<lparr>occ_counter := occ_counter voxel + 1\<rparr>
         else voxel\<lparr>occ_counter := 1\<rparr>)
      in voxel'\<lparr>last_occupied := frame_counter\<rparr>)"

subsection \<open>Loops\<close>

text \<open>
  A \<open>for\<close> loop over a list with a body that may hit undefined behaviour: the loop stops
  there with \<open>None\<close>.
\<close>

fun forEach :: "'a list \<Rightarrow> ('a \<Rightarrow> 's \<Rightarrow> 's option) \<Rightarrow> 's \<Rightarrow> 's option" where
  "forEach [] body s = Some s"
| "forEach (x # xs) body s =
     (case body x s of None \<Rightarrow> None | Some s' \<Rightarrow> forEach xs body s')"

subsection \<open>removeEverFree\<close>

definition clearEverFree :: "TsdfVoxel \<Rightarrow> TsdfVoxel" where
  "clearEverFree voxel = voxel\<lparr>ever_free := False, dynamic := False\<rparr>"

text \<open>
  The body of the loop over the neighbours. A neighbour in the block of the voxel itself
  is reached through \<open>tsdf_block\<close>, which is the layer's block under that index: one lookup
  covers both branches. A neighbour whose block is missing is skipped (\<open>continue\<close>).
\<close>

definition removeEverFree_neighbor :: "'a BlockGeometry_scheme \<Rightarrow> VoxelKey \<Rightarrow> Layer \<Rightarrow> Layer option" where
  "removeEverFree_neighbor I neighbor_key L =
     (case getBlockPtrByIndex L (fst neighbor_key) of
        None \<Rightarrow> Some L
      | Some neighbor_block \<Rightarrow>
          (case getVoxelByVoxelIndex I neighbor_block (snd neighbor_key) of
             None \<Rightarrow> None
           | Some neighbor_voxel \<Rightarrow>
               Some (setVoxel L (fst neighbor_key)
                       (computeLinearIndexFromVoxelIndex I (snd neighbor_key))
                       (clearEverFree neighbor_voxel))))"

text \<open>
  \<open>removeEverFree\<close> dereferences the block of the voxel without a null check: a missing
  block is undefined behaviour (\<open>None\<close>).
\<close>

definition removeEverFree :: "EverFreeIntegrator \<Rightarrow> BlockIndex \<Rightarrow> VoxelIndex \<Rightarrow> Layer \<Rightarrow> Layer option" where
  "removeEverFree I block_index voxel_index L =
     (case getBlockPtrByIndex L block_index of
        None \<Rightarrow> None
      | Some tsdf_block \<Rightarrow>
          (case getVoxelByVoxelIndex I tsdf_block voxel_index of
             None \<Rightarrow> None
           | Some voxel \<Rightarrow>
               forEach (neighborhood_search I block_index voxel_index)
                 (removeEverFree_neighbor I)
                 (setVoxel L block_index (computeLinearIndexFromVoxelIndex I voxel_index)
                    (clearEverFree voxel))))"

subsection \<open>updateEverFreeVoxels, first loop: occupancy counters and retraction\<close>

text \<open>
  The body of the loop over the linear indices of one updated block. Its first two
  statements change the voxel alone (the counter update and the clearing of \<open>dynamic\<close>);
  the voxel is a reference into the block, so the change is in the layer when
  \<open>removeEverFree\<close> runs.
\<close>

definition updateEverFreeVoxels_occupancy :: "Config \<Rightarrow> int \<Rightarrow> TsdfVoxel \<Rightarrow> TsdfVoxel" where
  "updateEverFreeVoxels_occupancy c frame_counter tsdf_voxel =
     (let v1 = (if distance tsdf_voxel < tsdf_occupancy_threshold c
                   \<or> last_lidar_occupied tsdf_voxel = frame_counter
                then updateOccupancyCounter c tsdf_voxel frame_counter
                else tsdf_voxel)
      in if last_lidar_occupied v1 < frame_counter - temporal_buffer c
         then v1\<lparr>dynamic := False\<rparr> else v1)"

definition updateEverFreeVoxels_voxel ::
  "EverFreeIntegrator \<Rightarrow> int \<Rightarrow> BlockIndex \<Rightarrow> nat \<Rightarrow> Layer \<Rightarrow> Layer option" where
  "updateEverFreeVoxels_voxel I frame_counter block_index index L =
     (case voxelAt L block_index index of
        None \<Rightarrow> None
      | Some tsdf_voxel \<Rightarrow>
          (let v = updateEverFreeVoxels_occupancy (config I) frame_counter tsdf_voxel;
               L1 = setVoxel L block_index index v
           in if occ_counter v \<ge> counter_to_reset (config I)
              then removeEverFree I block_index (computeVoxelIndexFromLinearIndex I index) L1
              else Some L1))"

definition updateEverFreeVoxels_block ::
  "EverFreeIntegrator \<Rightarrow> int \<Rightarrow> BlockIndex \<Rightarrow> Layer \<Rightarrow> Layer option" where
  "updateEverFreeVoxels_block I frame_counter block_index L =
     (case getBlockPtrByIndex L block_index of
        None \<Rightarrow> Some L
      | Some tsdf_block \<Rightarrow>
          forEach [0..<voxels_per_block I]
            (updateEverFreeVoxels_voxel I frame_counter block_index) L)"

subsection \<open>makeEverFree\<close>

text \<open>
  The loop over the neighbours: \<open>Some True\<close> when it breaks with
  \<open>neighbor_occupied_or_unobserved\<close> set, \<open>Some False\<close> when it runs to its end. As in
  \<open>removeEverFree\<close>, the lookup of the neighbour's block covers the branch that takes
  \<open>tsdf_block\<close> for a neighbour in the same block.
\<close>

fun neighbor_occupied_or_unobserved ::
  "EverFreeIntegrator \<Rightarrow> int \<Rightarrow> Layer \<Rightarrow> VoxelKey list \<Rightarrow> bool option" where
  "neighbor_occupied_or_unobserved I frame_counter L [] = Some False"
| "neighbor_occupied_or_unobserved I frame_counter L (neighbor_key # neighbors) =
     (case getBlockPtrByIndex L (fst neighbor_key) of
        None \<Rightarrow> Some True
      | Some neighbor_block \<Rightarrow>
          (case getVoxelByVoxelIndex I neighbor_block (snd neighbor_key) of
             None \<Rightarrow> None
           | Some neighbor_voxel \<Rightarrow>
               if weight neighbor_voxel < 1 / 1000000
                  \<or> last_occupied neighbor_voxel > frame_counter - burn_in_period (config I)
               then Some True
               else neighbor_occupied_or_unobserved I frame_counter L neighbors))"

definition makeEverFree_voxel ::
  "EverFreeIntegrator \<Rightarrow> int \<Rightarrow> BlockIndex \<Rightarrow> nat \<Rightarrow> Layer \<Rightarrow> Layer option" where
  "makeEverFree_voxel I frame_counter block_index index L =
     (case voxelAt L block_index index of
        None \<Rightarrow> None
      | Some tsdf_voxel \<Rightarrow>
          if ever_free tsdf_voxel \<or> weight tsdf_voxel \<le> 1 / 1000000
             \<or> last_occupied tsdf_voxel > frame_counter - burn_in_period (config I)
          then Some L
          else
            (case neighbor_occupied_or_unobserved I frame_counter L
                    (neighborhood_search I block_index
                       (computeVoxelIndexFromLinearIndex I index)) of
               None \<Rightarrow> None
             | Some blocked \<Rightarrow>
                 if \<not> blocked
                 then Some (setVoxel L block_index index (tsdf_voxel\<lparr>ever_free := True\<rparr>))
                 else Some L))"

definition makeEverFree :: "EverFreeIntegrator \<Rightarrow> BlockIndex \<Rightarrow> int \<Rightarrow> Layer \<Rightarrow> Layer option" where
  "makeEverFree I block_index frame_counter L =
     (case getBlockPtrByIndex L block_index of
        None \<Rightarrow> Some L
      | Some tsdf_block \<Rightarrow>
          (case forEach [0..<voxels_per_block I]
                  (makeEverFree_voxel I frame_counter block_index) L of
             None \<Rightarrow> None
           | Some L' \<Rightarrow>
               Some (modifyBlock L' block_index (\<lambda>blk. blk\<lparr>updated_esdf := False\<rparr>))))"

subsection \<open>updateEverFreeVoxels\<close>

text \<open>
  The second loop hands the updated blocks to \<open>num_threads\<close> workers through an index
  dispenser that gives each block to one worker. A worker writes only the \<open>ever_free\<close>
  flags and the updated bit of the block it was handed, and reads of other voxels only
  \<open>weight\<close> and \<open>last_occupied\<close>, which this loop never writes. The blocks are taken here
  one after the other in the order of the list; the result does not depend on that order
  (lemma \<open>label_free_order_independent\<close>). With no worker (\<open>num_threads < 1\<close>, which
  \<open>checkParams\<close> excludes) no block is visited.
\<close>

definition updateEverFreeVoxels_remove_occupied ::
  "EverFreeIntegrator \<Rightarrow> int \<Rightarrow> BlockIndex list \<Rightarrow> Layer \<Rightarrow> Layer option" where
  "updateEverFreeVoxels_remove_occupied I frame_counter updated_blocks L =
     forEach updated_blocks (updateEverFreeVoxels_block I frame_counter) L"

definition updateEverFreeVoxels :: "EverFreeIntegrator \<Rightarrow> int \<Rightarrow> Layer \<Rightarrow> Layer option" where
  "updateEverFreeVoxels I frame_counter L =
     (let updated_blocks = getAllUpdatedBlocks L in
      case updateEverFreeVoxels_remove_occupied I frame_counter updated_blocks L of
        None \<Rightarrow> None
      | Some L1 \<Rightarrow>
          if num_threads (config I) \<ge> 1
          then forEach updated_blocks (\<lambda>index. makeEverFree I index frame_counter) L1
          else Some L1)"

section \<open>The motion detector\<close>

record PointInfo =
  filtered_out :: bool
  EverFree_level_dynamic :: bool
  cluster_level_dynamic :: bool

record MotionDetectorConfig =
  evaluate :: bool
  visualize :: bool
  md_num_threads :: int
  occ_counter_to_reset :: int

subsection \<open>everFreeIntegrationStep\<close>

text \<open>
  The motion detector calls three methods of its integrator object whose signatures are
  not those of the integrator's source file (\<open>updateOccupancyCounter\<close> on a voxel pointer,
  \<open>RemoveEverFree\<close> and \<open>MakeEverFree\<close> with the frame counter): their code is not in the
  sources, so they are parameters.
\<close>

record CalledIntegrator =
  updateOccupancyCounter_ptr :: "TsdfVoxel \<Rightarrow> int \<Rightarrow> TsdfVoxel"
  RemoveEverFree :: "BlockIndex \<Rightarrow> VoxelIndex \<Rightarrow> int \<Rightarrow> Layer \<Rightarrow> Layer option"
  MakeEverFree :: "BlockIndex \<Rightarrow> int \<Rightarrow> Layer \<Rightarrow> Layer option"

text \<open>
  The step compares the distance of a voxel with the float expression
  \<open>3 * voxel_size / 2\<close>, whose product the code rounds to a float. The rounding is not
  modelled: the member \<open>three_voxel_size_half\<close> is the float that the expression evaluates
  to, whatever the voxel size it comes from.
\<close>

record MotionDetector = BlockGeometry +
  md_config :: MotionDetectorConfig
  three_voxel_size_half :: real
  ever_free_integrator :: CalledIntegrator

text \<open>
  The body of the loop over the linear indices. The block pointer is dereferenced without
  a null check (undefined behaviour, \<open>None\<close>, for a missing block).
\<close>

definition everFreeIntegrationStep_voxel ::
  "MotionDetector \<Rightarrow> int \<Rightarrow> BlockIndex \<Rightarrow> nat \<Rightarrow> Layer \<Rightarrow> Layer option" where
  "everFreeIntegrationStep_voxel M frame_counter block_index linear_index L =
     (case voxelAt L block_index linear_index of
        None \<Rightarrow> None
      | Some tsdf_voxel \<Rightarrow>
          (let v1 = (if distance tsdf_voxel < three_voxel_size_half M
                        \<or> curr_occupied tsdf_voxel = frame_counter
                     then (updateOccupancyCounter_ptr (ever_free_integrator M)
                             tsdf_voxel frame_counter)\<lparr>last_static := frame_counter\<rparr>
                     else tsdf_voxel);
               v2 = (if curr_occupied v1 < frame_counter - 2
                     then v1\<lparr>moving := False\<rparr> else v1);
               L1 = setVoxel L block_index linear_index v2
           in if occ_counter v2 = occ_counter_to_reset (md_config M)
              then RemoveEverFree (ever_free_integrator M) block_index
                     (computeVoxelIndexFromLinearIndex M linear_index) frame_counter L1
              else Some L1))"

definition everFreeIntegrationStep_RemoveEverFree ::
  "MotionDetector \<Rightarrow> int \<Rightarrow> BlockIndex list \<Rightarrow> Layer \<Rightarrow> Layer option" where
  "everFreeIntegrationStep_RemoveEverFree M frame_counter updated_blocks L =
     forEach updated_blocks
       (\<lambda>block_index.
          forEach [0..<voxels_per_block M]
            (everFreeIntegrationStep_voxel M frame_counter block_index))
       L"

definition everFreeIntegrationStep :: "MotionDetector \<Rightarrow> int \<Rightarrow> Layer \<Rightarrow> Layer option" where
  "everFreeIntegrationStep M frame_counter L =
     (let updated_blocks = getAllUpdatedBlocks L in
      if updated_blocks = [] then Some L
      else
        (case everFreeIntegrationStep_RemoveEverFree M frame_counter updated_blocks L of
           None \<Rightarrow> None
         | Some L1 \<Rightarrow>
             if md_num_threads (md_config M) \<ge> 1
             then forEach updated_blocks
                    (\<lambda>index. MakeEverFree (ever_free_integrator M) index frame_counter) L1
             else Some L1))"

subsection \<open>BlockwiseBuildVoxel2PointMap\<close>



subsection \<open>setUpVoxel2PointMap, last loop: marking the occupied voxels\<close>



subsection \<open>pointcloudCallback\<close>

text \<open>
  The callback increments the frame counter, looks the transform up, and on success runs
  its steps one after the other. What the steps compute is outside the callback: they are
  parameters, each a function of the message, the preprocessed cloud and the frame counter
  on the point classifications and on everything else the detector owns (the map, the
  clusters, the collaborating objects), which stays abstract. No step can write the frame
  counter, a private member that the steps in the source file only read.
\<close>

datatype Stage =
    Preprocessing | SetUpVoxel2PointMap | ClusteringStep | EverFreeIntegrationStep
  | EvalStep | VisualizationStep | TsdfIntegration

record 'w MotionDetectorState =
  frame_counter :: int
  point_classifications :: "PointInfo list"
  world :: 'w

record ('msg, 'cl, 'w) Collaborators =
  lookupTransform :: "'msg \<Rightarrow> 'w \<Rightarrow> bool"
  processPointcloud :: "'msg \<Rightarrow> 'w \<Rightarrow> ('cl \<times> PointInfo list) \<times> 'w"
  cloud_size :: "'cl \<Rightarrow> nat"
  step :: "Stage \<Rightarrow> 'msg \<Rightarrow> 'cl \<Rightarrow> int \<Rightarrow> PointInfo list \<times> 'w \<Rightarrow> PointInfo list \<times> 'w"

text \<open>
  The loop that derives \<open>filtered_out\<close>: \<open>points.at(i)\<close> throws \<open>std::out_of_range\<close> when the
  cloud has more points than there are classifications.
\<close>

definition filteredOut_point :: "nat \<Rightarrow> PointInfo list \<Rightarrow> PointInfo list option" where
  "filteredOut_point i points =
     (if i < length points
      then Some (if cluster_level_dynamic (points ! i)
                 then points[i := (points ! i)\<lparr>filtered_out := True\<rparr>]
                 else points)
      else None)"

definition pointcloudCallback ::
  "('msg, 'cl, 'w) Collaborators \<Rightarrow> MotionDetectorConfig \<Rightarrow> 'msg \<Rightarrow>
   'w MotionDetectorState \<Rightarrow> 'w MotionDetectorState option" where
  "pointcloudCallback S c msg md =
     (let md1 = md\<lparr>frame_counter := frame_counter md + 1\<rparr>;
          fc = frame_counter md1
      in if \<not> lookupTransform S msg (world md1) then Some md1
         else
           (let pre = processPointcloud S msg (world md1);
                cloud = fst (fst pre);
                s1 = (snd (fst pre), snd pre);
                s2 = step S SetUpVoxel2PointMap msg cloud fc s1;
                s3 = step S ClusteringStep msg cloud fc s2;
                s4 = step S EverFreeIntegrationStep msg cloud fc s3;
                s5 = (if evaluate c then step S EvalStep msg cloud fc s4 else s4);
                s6 = (if visualize c then step S VisualizationStep msg cloud fc s5 else s5)
            in case forEach [0..<cloud_size S cloud] filteredOut_point (fst s6) of
                 None \<Rightarrow> None
               | Some points \<Rightarrow>
                   (let s7 = step S TsdfIntegration msg cloud fc (points, snd s6)
                    in Some (md1\<lparr>point_classifications := fst s7, world := snd s7\<rparr>))))"

section \<open>Notions used in the properties\<close>

subsection \<open>Well-formed maps and geometries\<close>

text \<open>
  The integrator's code never checks a voxel index: it relies on the layer allocating
  every block with \<open>voxels_per_block\<close> voxels, on the index conversions being inverse to
  each other on the linear indices of a block, and on the neighbourhood search returning
  voxel indices inside a block. These are the conditions under which no access of the
  per-frame update is out of range. All of them are decidable by running through the
  lists.
\<close>

definition layer_ok :: "'a BlockGeometry_scheme \<Rightarrow> Layer \<Rightarrow> bool" where
  "layer_ok G L = list_all (\<lambda>kb. length (voxels (snd kb)) = voxels_per_block G) L"

definition index_roundtrip :: "'a BlockGeometry_scheme \<Rightarrow> bool" where
  "index_roundtrip G =
     list_all (\<lambda>index. computeLinearIndexFromVoxelIndex G (computeVoxelIndexFromLinearIndex G index) = index)
       [0..<voxels_per_block G]"

definition search_ok :: "EverFreeIntegrator \<Rightarrow> BlockIndex \<Rightarrow> bool" where
  "search_ok I b =
     list_all (\<lambda>index.
        list_all (\<lambda>key. computeLinearIndexFromVoxelIndex I (snd key) < voxels_per_block I)
          (neighborhood_search I b (computeVoxelIndexFromLinearIndex I index)))
       [0..<voxels_per_block I]"

definition update_ok :: "EverFreeIntegrator \<Rightarrow> Layer \<Rightarrow> bool" where
  "update_ok I L \<longleftrightarrow>
     layer_ok I L \<and> index_roundtrip I \<and> list_all (search_ok I) (getAllUpdatedBlocks L)"

text \<open>The neighbours whose block exists lie inside that block's voxel array.\<close>

definition neighbors_in_range :: "'a BlockGeometry_scheme \<Rightarrow> Layer \<Rightarrow> VoxelKey list \<Rightarrow> bool" where
  "neighbors_in_range G L keys =
     list_all (\<lambda>key. case getBlockPtrByIndex L (fst key) of
                        None \<Rightarrow> True
                      | Some blk \<Rightarrow> computeLinearIndexFromVoxelIndex G (snd key) < length (voxels blk)) keys"

subsection \<open>Retraction and promotion\<close>

text \<open>A voxel that exists and has neither \<open>ever_free\<close> nor \<open>dynamic\<close> set.\<close>

definition cleared :: "Layer \<Rightarrow> BlockIndex \<Rightarrow> nat \<Rightarrow> bool" where
  "cleared L b i = (case voxelAt L b i of None \<Rightarrow> False | Some v \<Rightarrow> \<not> ever_free v \<and> \<not> dynamic v)"

text \<open>
  A neighbour that lets a voxel become ever-free: its block and the voxel exist, its
  weight is not below the threshold, and it was last occupied at least the burn-in period
  ago.
\<close>

definition neighbor_clear :: "EverFreeIntegrator \<Rightarrow> int \<Rightarrow> Layer \<Rightarrow> VoxelKey \<Rightarrow> bool" where
  "neighbor_clear I f L key =
     (case getBlockPtrByIndex L (fst key) of
        None \<Rightarrow> False
      | Some neighbor_block \<Rightarrow>
          (case getVoxelByVoxelIndex I neighbor_block (snd key) of
             None \<Rightarrow> False
           | Some neighbor_voxel \<Rightarrow>
               weight neighbor_voxel \<ge> 1 / 1000000
               \<and> f - last_occupied neighbor_voxel \<ge> burn_in_period (config I)))"

definition promotion_condition ::
  "EverFreeIntegrator \<Rightarrow> int \<Rightarrow> Layer \<Rightarrow> BlockIndex \<Rightarrow> nat \<Rightarrow> TsdfVoxel \<Rightarrow> bool" where
  "promotion_condition I f L b index v \<longleftrightarrow>
     weight v > 1 / 1000000
     \<and> f - last_occupied v \<ge> burn_in_period (config I)
     \<and> \<not> ever_free v
     \<and> list_all (neighbor_clear I f L)
          (neighborhood_search I b (computeVoxelIndexFromLinearIndex I index))"

text \<open>
  The same condition with "observed" read as "positive weight", for the voxel and for its
  neighbours.
\<close>

definition positive_weight_neighbor_clear :: "EverFreeIntegrator \<Rightarrow> int \<Rightarrow> Layer \<Rightarrow> VoxelKey \<Rightarrow> bool" where
  "positive_weight_neighbor_clear I f L key =
     (case getBlockPtrByIndex L (fst key) of
        None \<Rightarrow> False
      | Some neighbor_block \<Rightarrow>
          (case getVoxelByVoxelIndex I neighbor_block (snd key) of
             None \<Rightarrow> False
           | Some neighbor_voxel \<Rightarrow>
               weight neighbor_voxel > 0
               \<and> f - last_occupied neighbor_voxel \<ge> burn_in_period (config I)))"

definition positive_weight_promotion_condition ::
  "EverFreeIntegrator \<Rightarrow> int \<Rightarrow> Layer \<Rightarrow> BlockIndex \<Rightarrow> nat \<Rightarrow> TsdfVoxel \<Rightarrow> bool" where
  "positive_weight_promotion_condition I f L b index v \<longleftrightarrow>
     weight v > 0
     \<and> f - last_occupied v \<ge> burn_in_period (config I)
     \<and> \<not> ever_free v
     \<and> list_all (positive_weight_neighbor_clear I f L)
          (neighborhood_search I b (computeVoxelIndexFromLinearIndex I index))"

text \<open>
  Every occupancy counter of the map is at least 0, as it is in a map of fresh voxels:
  for each block index of the layer, the voxels of the block found under it are checked.
\<close>

definition counters_nonneg :: "Layer \<Rightarrow> bool" where
  "counters_nonneg L =
     list_all (\<lambda>kb. case getBlockPtrByIndex L (fst kb) of
                       None \<Rightarrow> True
                     | Some blk \<Rightarrow> list_all (\<lambda>v. 0 \<le> occ_counter v) (voxels blk)) L"



text \<open>Reading one flag of one voxel off the result of an operation.\<close>

definition everFreeAfter :: "Layer option \<Rightarrow> BlockIndex \<Rightarrow> nat \<Rightarrow> bool option" where
  "everFreeAfter result b i =
     (case result of None \<Rightarrow> None | Some L \<Rightarrow> map_option ever_free (voxelAt L b i))"

subsection \<open>The callback\<close>

text \<open>In a list of calls, \<open>a\<close> is called before the first call of \<open>b\<close>.\<close>

definition calledBefore :: "Stage \<Rightarrow> Stage \<Rightarrow> Stage list \<Rightarrow> bool" where
  "calledBefore a b calls \<longleftrightarrow> b \<in> set calls \<and> a \<in> set (takeWhile (\<lambda>x. x \<noteq> b) calls)"

text \<open>What the loop at the end of the callback does to one point.\<close>

definition deriveFilteredOut :: "PointInfo \<Rightarrow> PointInfo" where
  "deriveFilteredOut p = (if cluster_level_dynamic p then p\<lparr>filtered_out := True\<rparr> else p)"

subsection \<open>Relations between the map before and after an operation\<close>

text \<open>The block indices in their order, with each block's size and updated bit.\<close>

definition shape :: "Layer \<Rightarrow> (BlockIndex \<times> nat \<times> bool) list" where
  "shape L = map (\<lambda>kb. (fst kb, length (voxels (snd kb)), updated_esdf (snd kb))) L"

definition promote :: "EverFreeIntegrator \<Rightarrow> int \<Rightarrow> Layer \<Rightarrow> BlockIndex \<Rightarrow> nat \<Rightarrow> TsdfVoxel \<Rightarrow> TsdfVoxel" where
  "promote I f L b index v = (if promotion_condition I f L b index v then v\<lparr>ever_free := True\<rparr> else v)"

text \<open>The voxels of \<open>L'\<close> differ from those of \<open>L\<close> in their \<open>ever_free\<close> flags at most.\<close>

definition same_but_ever_free :: "Layer \<Rightarrow> Layer \<Rightarrow> bool" where
  "same_but_ever_free L L' \<longleftrightarrow>
     (\<forall>b i. map_option (\<lambda>v. v\<lparr>ever_free := False\<rparr>) (voxelAt L' b i)
            = map_option (\<lambda>v. v\<lparr>ever_free := False\<rparr>) (voxelAt L b i))"

text \<open>
  \<open>L'\<close> has the voxels of \<open>L\<close>, with \<open>last_lidar_occupied\<close> unchanged and no \<open>dynamic\<close> flag
  set that was not set in \<open>L\<close>.
\<close>

definition no_new_dynamic :: "Layer \<Rightarrow> Layer \<Rightarrow> bool" where
  "no_new_dynamic L L' \<longleftrightarrow>
     (\<forall>b i. case voxelAt L b i of
              None \<Rightarrow> voxelAt L' b i = None
            | Some v \<Rightarrow>
                (case voxelAt L' b i of
                   None \<Rightarrow> False
                 | Some v' \<Rightarrow> last_lidar_occupied v' = last_lidar_occupied v
                              \<and> (dynamic v' \<longrightarrow> dynamic v)))"

section \<open>A concrete map\<close>

text \<open>
  An instance of the parameters, for the examples: blocks of two voxels per side in
  row-major layout (x fastest, the index computed in \<open>size_t\<close>).
\<close>

definition gridGeometry :: "nat \<Rightarrow> BlockGeometry" where
  "gridGeometry n =
     \<lparr>voxels_per_side = n,
      computeVoxelIndexFromLinearIndex =
        (\<lambda>i. (int (i mod n), int ((i div n) mod n), int (i div (n * n)))),
      computeLinearIndexFromVoxelIndex =
        (\<lambda>vi. case vi of (x, y, z) \<Rightarrow> nat ((x + int n * (y + z * int n)) mod 2 ^ 64))\<rparr>"

text \<open>
  Modelled from the spec: the neighbourhood resolver of section 4.1, whose code is not in
  the two source files, for face connectivity. It computes the absolute cell coordinate
  of each of the six face neighbours and derives the owning block and the local index
  from it.
\<close>

definition faceOffsets :: "(int \<times> int \<times> int) list" where
  "faceOffsets = [(-1, 0, 0), (1, 0, 0), (0, -1, 0), (0, 1, 0), (0, 0, -1), (0, 0, 1)]"

definition neighborKey :: "nat \<Rightarrow> BlockIndex \<Rightarrow> VoxelIndex \<Rightarrow> int \<times> int \<times> int \<Rightarrow> VoxelKey" where
  "neighborKey n b v d =
     (case b of (bx, by, bz) \<Rightarrow> case v of (x, y, z) \<Rightarrow> case d of (dx, dy, dz) \<Rightarrow>
        (let gx = bx * int n + x + dx; gy = by * int n + y + dy; gz = bz * int n + z + dz
         in ((gx div int n, gy div int n, gz div int n),
             (gx mod int n, gy mod int n, gz mod int n))))"

definition faceSearch :: "nat \<Rightarrow> BlockIndex \<Rightarrow> VoxelIndex \<Rightarrow> VoxelKey list" where
  "faceSearch n b v = map (neighborKey n b v) faceOffsets"

definition exampleConfig :: Config where
  "exampleConfig = \<lparr>counter_to_reset = 3, temporal_buffer = 2, burn_in_period = 5,
      tsdf_occupancy_threshold = 3 / 8, neighbor_connectivity = 6, num_threads = 1\<rparr>"

definition exampleIntegrator :: EverFreeIntegrator where
  "exampleIntegrator = BlockGeometry.extend (gridGeometry 2)
      (EverFreeIntegrator.fields exampleConfig (faceSearch 2))"

text \<open>
  A voxel observed free and never occupied, and a map of four blocks of such voxels: the
  block at the origin, marked as updated, and its three neighbours on the negative side.
  The voxel with linear index 0 of the first block has all six neighbours in the map.
\<close>

definition freeVoxel :: TsdfVoxel where
  "freeVoxel = \<lparr>distance = 1, weight = 1, last_lidar_occupied = 0, last_occupied = 0,
      occ_counter = 0, ever_free = False, dynamic = False, curr_occupied = 0, last_static = 0,
      moving = False, clustering_processed = False\<rparr>"

definition freeBlock :: "bool \<Rightarrow> Block" where
  "freeBlock u = \<lparr>voxels = replicate 8 freeVoxel, updated_esdf = u\<rparr>"

definition exampleLayer :: Layer where
  "exampleLayer = [((0, 0, 0), freeBlock True), ((-1, 0, 0), freeBlock False),
                   ((0, -1, 0), freeBlock False), ((0, 0, -1), freeBlock False)]"

text \<open>The same map with one voxel changed: a voxel of tiny positive weight.\<close>

definition faintVoxel :: TsdfVoxel where
  "faintVoxel = freeVoxel\<lparr>weight := 1 / 2000000\<rparr>"

definition faintLayer :: Layer where
  "faintLayer = setVoxel exampleLayer (0, 0, 0) 0 faintVoxel"

text \<open>
  A voxel close to a surface, occupied in two consecutive frames so far, ever-free and
  dynamic.
\<close>

definition occupiedVoxel :: TsdfVoxel where
  "occupiedVoxel = freeVoxel\<lparr>distance := 1 / 8, last_occupied := 9, occ_counter := 2,
      ever_free := True, dynamic := True\<rparr>"

definition occupiedLayer :: Layer where
  "occupiedLayer = setVoxel exampleLayer (0, 0, 0) 0 occupiedVoxel"

text \<open>A free voxel still flagged dynamic.\<close>

definition dynamicVoxel :: TsdfVoxel where
  "dynamicVoxel = freeVoxel\<lparr>dynamic := True\<rparr>"

definition dynamicLayer :: Layer where
  "dynamicLayer = setVoxel exampleLayer (0, 0, 0) 0 dynamicVoxel"

text \<open>
  A voxel that was occupied in the frames 1 to 5, so that its counter went beyond
  \<open>counter_to_reset\<close>, and has been free since, long enough to be ever-free again in frame
  12; beside it, in a block that is not marked as updated, an ever-free neighbour.
\<close>

definition staleVoxel :: TsdfVoxel where
  "staleVoxel = freeVoxel\<lparr>last_occupied := 5, occ_counter := 5, ever_free := True\<rparr>"

definition everFreeVoxel :: TsdfVoxel where
  "everFreeVoxel = freeVoxel\<lparr>ever_free := True\<rparr>"

definition staleLayer :: Layer where
  "staleLayer = setVoxel (setVoxel exampleLayer (0, 0, 0) 0 staleVoxel) (-1, 0, 0) 1 everFreeVoxel"



section \<open>A concrete motion detector\<close>

text \<open>
  A detector on the same geometry, with the distance threshold and the counter limit of
  \<open>exampleConfig\<close> (\<open>3 * voxel_size / 2\<close> is 0.375 for the voxel size 0.25, without
  rounding). Of the integrator methods it calls, the labelling method is the
  \<open>makeEverFree\<close> of the integrator's source file, which takes the same arguments; the
  other two are left open.
\<close>

definition exampleDetectorConfig :: MotionDetectorConfig where
  "exampleDetectorConfig = \<lparr>evaluate = False, visualize = False, md_num_threads = 1,
      occ_counter_to_reset = 3\<rparr>"

definition exampleDetector ::
  "(TsdfVoxel \<Rightarrow> int \<Rightarrow> TsdfVoxel) \<Rightarrow> (BlockIndex \<Rightarrow> VoxelIndex \<Rightarrow> int \<Rightarrow> Layer \<Rightarrow> Layer option) \<Rightarrow>
   MotionDetector" where
  "exampleDetector counterUpdate retract = BlockGeometry.extend (gridGeometry 2)
      (MotionDetector.fields exampleDetectorConfig (3 / 8)
         \<lparr>updateOccupancyCounter_ptr = counterUpdate,
          RemoveEverFree = retract,
          MakeEverFree = (\<lambda>index fc. makeEverFree exampleIntegrator index fc)\<rparr>)"

text \<open>
  Collaborators that record the order in which they are called: the abstract part of the
  state is the list of the calls so far. The message carries nothing, the cloud is its
  number of points, preprocessing delivers \<open>n\<close> fresh classifications, the clustering
  step marks every point as cluster-level dynamic, and the other steps leave the
  classifications alone. The transform lookup succeeds or fails as \<open>ok\<close> says.
\<close>

definition freshPoint :: PointInfo where
  "freshPoint = \<lparr>filtered_out = False, EverFree_level_dynamic = False, cluster_level_dynamic = False\<rparr>"

definition loggingCollaborators :: "bool \<Rightarrow> nat \<Rightarrow> (unit, nat, Stage list) Collaborators" where
  "loggingCollaborators ok n =
     \<lparr>lookupTransform = (\<lambda>msg w. ok),
      processPointcloud = (\<lambda>msg w. ((n, replicate n freshPoint), w @ [Preprocessing])),
      cloud_size = (\<lambda>cloud. cloud),
      step = (\<lambda>stage msg cloud fc s.
                (if stage = ClusteringStep
                 then map (\<lambda>p. p\<lparr>cluster_level_dynamic := True\<rparr>) (fst s) else fst s,
                 snd s @ [stage]))\<rparr>"

definition initialState :: "Stage list MotionDetectorState" where
  "initialState = \<lparr>frame_counter = 0, point_classifications = [], world = []\<rparr>"

text \<open>
  Collaborators that record each call together with the point classifications the step
  is handed. Preprocessing delivers \<open>n\<close> fresh classifications, the clustering step marks
  the first point as cluster-level dynamic and no other, and no step writes
  \<open>filtered_out\<close>: what the record shows of it is the work of the callback.
\<close>

definition markFirst :: "PointInfo list \<Rightarrow> PointInfo list" where
  "markFirst points =
     (case points of [] \<Rightarrow> [] | p # ps \<Rightarrow> p\<lparr>cluster_level_dynamic := True\<rparr> # ps)"

definition tracingCollaborators :: "nat \<Rightarrow> (unit, nat, (Stage \<times> PointInfo list) list) Collaborators" where
  "tracingCollaborators n =
     \<lparr>lookupTransform = (\<lambda>msg w. True),
      processPointcloud =
        (\<lambda>msg w. ((n, replicate n freshPoint), w @ [(Preprocessing, replicate n freshPoint)])),
      cloud_size = (\<lambda>cloud. cloud),
      step = (\<lambda>stage msg cloud fc s.
                (if stage = ClusteringStep then markFirst (fst s) else fst s,
                 snd s @ [(stage, fst s)]))\<rparr>"

definition tracingState :: "(Stage \<times> PointInfo list) list MotionDetectorState" where
  "tracingState = \<lparr>frame_counter = 0, point_classifications = [], world = []\<rparr>"

definition markedPoint :: PointInfo where
  "markedPoint = freshPoint\<lparr>cluster_level_dynamic := True\<rparr>"

definition filteredPoint :: PointInfo where
  "filteredPoint = freshPoint\<lparr>filtered_out := True, cluster_level_dynamic := True\<rparr>"

section \<open>Lemmas\<close>


subsection \<open>Reading and writing the layer\<close>

lemma map_of_modifyBlock:
  "map_of (modifyBlock L b g) k = (if k = b then map_option g (map_of L k) else map_of L k)"
  by (induction L) (auto simp: modifyBlock_def)

lemma getBlock_modifyBlock:
  "getBlockPtrByIndex (modifyBlock L b g) k =
     (if k = b then map_option g (getBlockPtrByIndex L k) else getBlockPtrByIndex L k)"
  by (simp add: getBlockPtrByIndex_def map_of_modifyBlock)

lemma voxelAt_setVoxel:
  "voxelAt (setVoxel L b i v) b' i' =
     (if b' = b \<and> i' = i \<and> voxelAt L b i \<noteq> None then Some v else voxelAt L b' i')"
  by (auto simp: voxelAt_def setVoxel_def getBlock_modifyBlock getVoxelByLinearIndex_def
           split: option.splits)

lemma shape_setVoxel: "shape (setVoxel L b i v) = shape L"
  by (simp add: shape_def setVoxel_def modifyBlock_def comp_def)

subsection \<open>What the shape of a layer determines\<close>

lemma map_of_shape:
  "map_of (shape L) b = map_option (\<lambda>blk. (length (voxels blk), updated_esdf blk)) (map_of L b)"
  by (induction L) (auto simp: shape_def)

lemma shape_getBlock:
  "shape L' = shape L \<Longrightarrow>
   map_option (\<lambda>blk. (length (voxels blk), updated_esdf blk)) (getBlockPtrByIndex L' b)
   = map_option (\<lambda>blk. (length (voxels blk), updated_esdf blk)) (getBlockPtrByIndex L b)"
  unfolding getBlockPtrByIndex_def by (metis map_of_shape)

lemma shape_getBlock_None:
  "shape L' = shape L \<Longrightarrow> getBlockPtrByIndex L' b = None \<longleftrightarrow> getBlockPtrByIndex L b = None"
  using shape_getBlock[of L' L b]
  by (cases "getBlockPtrByIndex L b"; cases "getBlockPtrByIndex L' b") auto

lemma shape_hasBlock: "shape L' = shape L \<Longrightarrow> hasBlock L' b = hasBlock L b"
  using shape_getBlock_None[of L' L b] by (simp add: hasBlock_def)

lemma shape_block_length:
  "shape L' = shape L \<Longrightarrow> getBlockPtrByIndex L' b = Some blk' \<Longrightarrow>
   \<exists>blk. getBlockPtrByIndex L b = Some blk \<and> length (voxels blk) = length (voxels blk')"
  using shape_getBlock[of L' L b] by (cases "getBlockPtrByIndex L b") auto

lemma shape_voxelAt_None:
  "shape L' = shape L \<Longrightarrow> voxelAt L' b i = None \<longleftrightarrow> voxelAt L b i = None"
  using shape_getBlock[of L' L b]
  by (cases "getBlockPtrByIndex L b"; cases "getBlockPtrByIndex L' b")
     (auto simp: voxelAt_def getVoxelByLinearIndex_def)

lemma getAllUpdatedBlocks_shape:
  "getAllUpdatedBlocks L = map fst (filter (\<lambda>e. snd (snd e)) (shape L))"
  by (induction L) (auto simp: shape_def getAllUpdatedBlocks_def)

lemma shape_getAllUpdatedBlocks:
  "shape L' = shape L \<Longrightarrow> getAllUpdatedBlocks L' = getAllUpdatedBlocks L"
  by (simp add: getAllUpdatedBlocks_shape)

lemma shape_neighbors_in_range:
  "shape L' = shape L \<Longrightarrow> neighbors_in_range G L' keys = neighbors_in_range G L keys"
proof -
  assume sh: "shape L' = shape L"
  have "(case getBlockPtrByIndex L' (fst key) of None \<Rightarrow> True
                | Some blk \<Rightarrow> computeLinearIndexFromVoxelIndex G (snd key) < length (voxels blk))
            = (case getBlockPtrByIndex L (fst key) of None \<Rightarrow> True
                | Some blk \<Rightarrow> computeLinearIndexFromVoxelIndex G (snd key) < length (voxels blk))" for key
    using shape_getBlock[OF sh, of "fst key"]
    by (cases "getBlockPtrByIndex L (fst key)"; cases "getBlockPtrByIndex L' (fst key)") auto
  then show ?thesis by (simp add: neighbors_in_range_def)
qed

lemma getVoxelByVoxelIndex_voxelAt:
  "getBlockPtrByIndex L b = Some blk \<Longrightarrow>
   getVoxelByVoxelIndex G blk vi = voxelAt L b (computeLinearIndexFromVoxelIndex G vi)"
  by (simp add: voxelAt_def getVoxelByVoxelIndex_def)

subsection \<open>Loops\<close>

lemma forEach_append:
  "forEach (xs @ ys) body s = (case forEach xs body s of None \<Rightarrow> None | Some s' \<Rightarrow> forEach ys body s')"
  by (induction xs arbitrary: s) (auto split: option.splits)

lemma forEach_preserves:
  assumes "forEach xs body s = Some s'" and "P s"
    and "\<And>x t t'. x \<in> set xs \<Longrightarrow> P t \<Longrightarrow> body x t = Some t' \<Longrightarrow> P t'"
  shows "P s'"
  using assms
proof (induction xs arbitrary: s)
  case Nil
  then show ?case by simp
next
  case (Cons x xs)
  from Cons.prems(1) obtain t where t: "body x s = Some t" "forEach xs body t = Some s'"
    by (auto split: option.splits)
  from Cons.prems(3)[of x s t] Cons.prems(2) t(1) have "P t" by simp
  from Cons.IH[OF t(2) this] Cons.prems(3) show ?case by (meson list.set_intros(2))
qed

lemma forEach_total:
  assumes "P s" and "\<And>x t. x \<in> set xs \<Longrightarrow> P t \<Longrightarrow> \<exists>t'. body x t = Some t' \<and> P t'"
  shows "\<exists>s'. forEach xs body s = Some s' \<and> P s'"
  using assms
proof (induction xs arbitrary: s)
  case Nil
  then show ?case by simp
next
  case (Cons x xs)
  from Cons.prems obtain t' where t': "body x s = Some t'" "P t'" by (meson list.set_intros(1))
  from Cons.IH[OF t'(2)] Cons.prems(2) obtain s' where "forEach xs body t' = Some s'" "P s'"
    by (meson list.set_intros(2))
  with t' show ?case by simp
qed

lemma forEach_split:
  assumes "forEach xs body s = Some s'" and "x \<in> set xs"
  shows "\<exists>ys zs s1 s2. xs = ys @ x # zs \<and> forEach ys body s = Some s1
            \<and> body x s1 = Some s2 \<and> forEach zs body s2 = Some s'"
proof -
  from assms(2) obtain ys zs where xs: "xs = ys @ x # zs" by (meson split_list)
  with assms(1) show ?thesis
    by (auto simp: forEach_append split: option.splits)
qed

lemma forEach_rel:
  assumes "forEach xs body s = Some s'"
    and "\<And>t. R t t" and "\<And>a b c. R a b \<Longrightarrow> R b c \<Longrightarrow> R a c"
    and "\<And>x t t'. x \<in> set xs \<Longrightarrow> body x t = Some t' \<Longrightarrow> R t t'"
  shows "R s s'"
  using assms(1)
proof (rule forEach_preserves[where P = "R s"])
  show "R s s" by (rule assms(2))
next
  fix x t t'
  assume "x \<in> set xs" "R s t" "body x t = Some t'"
  with assms(3,4) show "R s t'" by blast
qed

subsection \<open>removeEverFree\<close>

lemma removeEverFree_neighbor_shape:
  "removeEverFree_neighbor G key L = Some L' \<Longrightarrow> shape L' = shape L"
  by (auto simp: removeEverFree_neighbor_def shape_setVoxel split: option.splits)

lemma removeEverFree_neighbor_cleared_mono:
  "removeEverFree_neighbor G key L = Some L' \<Longrightarrow> cleared L b i \<Longrightarrow> cleared L' b i"
  by (auto simp: removeEverFree_neighbor_def cleared_def voxelAt_setVoxel clearEverFree_def
           split: option.splits if_splits)

lemma removeEverFree_neighbor_cleared_self:
  "removeEverFree_neighbor G key L = Some L' \<Longrightarrow> hasBlock L (fst key) \<Longrightarrow>
   cleared L' (fst key) (computeLinearIndexFromVoxelIndex G (snd key))"
  by (auto simp: removeEverFree_neighbor_def cleared_def voxelAt_setVoxel clearEverFree_def
                 hasBlock_def getVoxelByVoxelIndex_voxelAt
           split: option.splits)

lemma removeEverFree_neighbor_total:
  "neighbors_in_range G L [key] \<Longrightarrow> \<exists>L'. removeEverFree_neighbor G key L = Some L'"
  by (auto simp: removeEverFree_neighbor_def neighbors_in_range_def getVoxelByVoxelIndex_def
                 getVoxelByLinearIndex_def
           split: option.splits)

lemma neighbors_in_range_Cons:
  "neighbors_in_range G L (key # keys) \<longleftrightarrow>
   neighbors_in_range G L [key] \<and> neighbors_in_range G L keys"
  by (simp add: neighbors_in_range_def)

lemma removeEverFree_loop_shape:
  "forEach keys (removeEverFree_neighbor G) L = Some L' \<Longrightarrow> shape L' = shape L"
proof (induction keys arbitrary: L)
  case Nil
  then show ?case by simp
next
  case (Cons k keys)
  then obtain L1 where L1: "removeEverFree_neighbor G k L = Some L1"
      "forEach keys (removeEverFree_neighbor G) L1 = Some L'"
    by (auto split: option.splits)
  from Cons.IH[OF L1(2)] removeEverFree_neighbor_shape[OF L1(1)] show ?case by simp
qed

lemma removeEverFree_loop_cleared_mono:
  "forEach keys (removeEverFree_neighbor G) L = Some L' \<Longrightarrow> cleared L b i \<Longrightarrow> cleared L' b i"
proof (induction keys arbitrary: L)
  case Nil
  then show ?case by simp
next
  case (Cons k keys)
  then obtain L1 where L1: "removeEverFree_neighbor G k L = Some L1"
      "forEach keys (removeEverFree_neighbor G) L1 = Some L'"
    by (auto split: option.splits)
  from removeEverFree_neighbor_cleared_mono[OF L1(1) Cons.prems(2)] Cons.IH[OF L1(2)]
  show ?case by simp
qed

lemma removeEverFree_loop_cleared:
  "forEach keys (removeEverFree_neighbor G) L = Some L' \<Longrightarrow> key \<in> set keys \<Longrightarrow>
   hasBlock L (fst key) \<Longrightarrow>
   cleared L' (fst key) (computeLinearIndexFromVoxelIndex G (snd key))"
proof (induction keys arbitrary: L)
  case Nil
  then show ?case by simp
next
  case (Cons k keys)
  then obtain L1 where L1: "removeEverFree_neighbor G k L = Some L1"
      "forEach keys (removeEverFree_neighbor G) L1 = Some L'"
    by (auto split: option.splits)
  show ?case
  proof (cases "key = k")
    case True
    with removeEverFree_neighbor_cleared_self[OF L1(1)] Cons.prems(3)
    have "cleared L1 (fst key) (computeLinearIndexFromVoxelIndex G (snd key))" by simp
    from removeEverFree_loop_cleared_mono[OF L1(2) this] show ?thesis .
  next
    case False
    with Cons.prems(2) have "key \<in> set keys" by simp
    moreover from Cons.prems(3) shape_hasBlock[OF removeEverFree_neighbor_shape[OF L1(1)], of "fst key"]
    have "hasBlock L1 (fst key)" by simp
    ultimately show ?thesis using Cons.IH[OF L1(2)] by simp
  qed
qed

lemma removeEverFree_loop_total:
  "neighbors_in_range G L keys \<Longrightarrow> \<exists>L'. forEach keys (removeEverFree_neighbor G) L = Some L'"
proof (induction keys arbitrary: L)
  case Nil
  then show ?case by simp
next
  case (Cons k keys)
  from Cons.prems have k: "neighbors_in_range G L [k]" and ks: "neighbors_in_range G L keys"
    using neighbors_in_range_Cons by blast+
  from removeEverFree_neighbor_total[OF k] obtain L1
    where L1: "removeEverFree_neighbor G k L = Some L1" by blast
  from ks shape_neighbors_in_range[OF removeEverFree_neighbor_shape[OF L1], of G keys]
  have "neighbors_in_range G L1 keys" by simp
  from Cons.IH[OF this] L1 show ?case by simp
qed

lemma removeEverFree_shape:
  "removeEverFree I b vi L = Some L' \<Longrightarrow> shape L' = shape L"
  by (auto simp: removeEverFree_def shape_setVoxel split: option.splits
           dest!: removeEverFree_loop_shape)

lemma removeEverFree_cleared_self:
  assumes "removeEverFree I b vi L = Some L'"
  shows "cleared L' b (computeLinearIndexFromVoxelIndex I vi)"
proof -
  from assms obtain blk v where blk: "getBlockPtrByIndex L b = Some blk"
    and v: "getVoxelByVoxelIndex I blk vi = Some v"
    and loop: "forEach (neighborhood_search I b vi) (removeEverFree_neighbor I)
                 (setVoxel L b (computeLinearIndexFromVoxelIndex I vi) (clearEverFree v)) = Some L'"
    by (auto simp: removeEverFree_def split: option.splits)
  from blk v have "voxelAt L b (computeLinearIndexFromVoxelIndex I vi) = Some v"
    by (simp add: getVoxelByVoxelIndex_voxelAt)
  then have "cleared (setVoxel L b (computeLinearIndexFromVoxelIndex I vi) (clearEverFree v))
               b (computeLinearIndexFromVoxelIndex I vi)"
    by (simp add: cleared_def voxelAt_setVoxel clearEverFree_def)
  from removeEverFree_loop_cleared_mono[OF loop this] show ?thesis .
qed

lemma removeEverFree_cleared_neighbor:
  assumes "removeEverFree I b vi L = Some L'"
    and "key \<in> set (neighborhood_search I b vi)" and "hasBlock L (fst key)"
  shows "cleared L' (fst key) (computeLinearIndexFromVoxelIndex I (snd key))"
proof -
  from assms(1) obtain blk v where
    loop: "forEach (neighborhood_search I b vi) (removeEverFree_neighbor I)
                 (setVoxel L b (computeLinearIndexFromVoxelIndex I vi) (clearEverFree v)) = Some L'"
    by (auto simp: removeEverFree_def split: option.splits)
  from assms(3) have "hasBlock (setVoxel L b (computeLinearIndexFromVoxelIndex I vi) (clearEverFree v)) (fst key)"
    using shape_hasBlock[OF shape_setVoxel] by simp
  from removeEverFree_loop_cleared[OF loop assms(2) this] show ?thesis .
qed

lemma removeEverFree_total:
  assumes "voxelAt L b (computeLinearIndexFromVoxelIndex I vi) = Some v"
    and "neighbors_in_range I L (neighborhood_search I b vi)"
  shows "\<exists>L'. removeEverFree I b vi L = Some L'"
proof -
  from assms(1) obtain blk where blk: "getBlockPtrByIndex L b = Some blk"
    and v: "getVoxelByVoxelIndex I blk vi = Some v"
    by (auto simp: voxelAt_def getVoxelByVoxelIndex_def split: option.splits)
  let ?L1 = "setVoxel L b (computeLinearIndexFromVoxelIndex I vi) (clearEverFree v)"
  from assms(2) shape_neighbors_in_range[OF shape_setVoxel, of I L b _ _ "neighborhood_search I b vi"]
  have "neighbors_in_range I ?L1 (neighborhood_search I b vi)" by simp
  from removeEverFree_loop_total[OF this] blk v show ?thesis
    by (simp add: removeEverFree_def)
qed

subsection \<open>makeEverFree\<close>

text \<open>
  The loop over the voxels of a block changes \<open>ever_free\<close> flags only, and the test of a
  neighbour does not read them: the promotion of each voxel is decided by the layer at the
  start of the loop.
\<close>

lemma neighbor_clear_voxelAt:
  "neighbor_clear I f L key =
     (case voxelAt L (fst key) (computeLinearIndexFromVoxelIndex I (snd key)) of
        None \<Rightarrow> False
      | Some nv \<Rightarrow> weight nv \<ge> 1 / 1000000 \<and> f - last_occupied nv \<ge> burn_in_period (config I))"
  by (simp add: neighbor_clear_def voxelAt_def getVoxelByVoxelIndex_def split: option.splits)

lemma same_but_ever_free_refl: "same_but_ever_free L L"
  by (simp add: same_but_ever_free_def)

lemma same_but_ever_free_trans:
  "same_but_ever_free L L1 \<Longrightarrow> same_but_ever_free L1 L2 \<Longrightarrow> same_but_ever_free L L2"
  by (simp add: same_but_ever_free_def)

lemma same_but_ever_free_neighbor_clear:
  assumes "same_but_ever_free L L'"
  shows "neighbor_clear I f L' key = neighbor_clear I f L key"
proof -
  let ?i = "computeLinearIndexFromVoxelIndex I (snd key)"
  from assms have "map_option (\<lambda>v. v\<lparr>ever_free := False\<rparr>) (voxelAt L' (fst key) ?i)
              = map_option (\<lambda>v. v\<lparr>ever_free := False\<rparr>) (voxelAt L (fst key) ?i)"
    unfolding same_but_ever_free_def by blast
  then show ?thesis
    by (cases "voxelAt L (fst key) ?i"; cases "voxelAt L' (fst key) ?i")
       (auto simp: neighbor_clear_voxelAt dest: arg_cong[where f = weight]
                   arg_cong[where f = last_occupied])
qed

lemma same_but_ever_free_promotion_condition:
  assumes "same_but_ever_free L L'"
  shows "promotion_condition I f L' b index v = promotion_condition I f L b index v"
proof -
  have "neighbor_clear I f L' = neighbor_clear I f L"
    by (rule ext) (rule same_but_ever_free_neighbor_clear[OF assms])
  then show ?thesis by (simp add: promotion_condition_def)
qed

lemma neighbor_loop_result:
  "neighbor_occupied_or_unobserved I f L keys = Some r \<Longrightarrow>
   r = (\<not> list_all (neighbor_clear I f L) keys)"
  by (induction keys) (auto simp: neighbor_clear_def split: option.splits if_splits)

lemma neighbor_loop_total:
  "neighbors_in_range I L keys \<Longrightarrow> \<exists>r. neighbor_occupied_or_unobserved I f L keys = Some r"
  by (induction keys)
     (auto simp: neighbors_in_range_def getVoxelByVoxelIndex_def getVoxelByLinearIndex_def
           split: option.splits)

lemma makeEverFree_voxel_result:
  assumes "makeEverFree_voxel I f b index L = Some L'"
  shows "\<exists>v. voxelAt L b index = Some v \<and> L' = (if promotion_condition I f L b index v
            then setVoxel L b index (v\<lparr>ever_free := True\<rparr>) else L)"
proof -
  from assms obtain v where v: "voxelAt L b index = Some v"
    by (auto simp: makeEverFree_voxel_def split: option.splits)
  show ?thesis
  proof (cases "ever_free v \<or> weight v \<le> 1 / 1000000
                 \<or> last_occupied v > f - burn_in_period (config I)")
    case True
    with assms v have "L' = L" by (auto simp: makeEverFree_voxel_def)
    moreover from True have "\<not> promotion_condition I f L b index v"
      by (auto simp: promotion_condition_def)
    ultimately show ?thesis using v by simp
  next
    case False
    with assms v obtain r where
      r: "neighbor_occupied_or_unobserved I f L
            (neighborhood_search I b (computeVoxelIndexFromLinearIndex I index)) = Some r"
      and L': "L' = (if \<not> r then setVoxel L b index (v\<lparr>ever_free := True\<rparr>) else L)"
      by (auto simp: makeEverFree_voxel_def split: option.splits if_splits)
    from neighbor_loop_result[OF r] False
    have "promotion_condition I f L b index v = (\<not> r)"
      by (auto simp: promotion_condition_def)
    with L' v show ?thesis by simp
  qed
qed

lemma makeEverFree_voxel_same:
  assumes "makeEverFree_voxel I f b index L = Some L'"
  shows "same_but_ever_free L L'"
proof -
  from makeEverFree_voxel_result[OF assms] obtain v where v: "voxelAt L b index = Some v"
    and L': "L' = (if promotion_condition I f L b index v
                   then setVoxel L b index (v\<lparr>ever_free := True\<rparr>) else L)"
    by blast
  show ?thesis
  proof (cases "promotion_condition I f L b index v")
    case True
    with L' v show ?thesis
      by (auto simp: same_but_ever_free_def voxelAt_setVoxel)
  next
    case False
    with L' show ?thesis by (simp add: same_but_ever_free_refl)
  qed
qed

lemma makeEverFree_voxel_at:
  assumes "makeEverFree_voxel I f b index L = Some L'"
  shows "voxelAt L' b' i =
           (if b' = b \<and> i = index then map_option (promote I f L b index) (voxelAt L b index)
            else voxelAt L b' i)"
proof -
  from makeEverFree_voxel_result[OF assms] obtain v where v: "voxelAt L b index = Some v"
    and L': "L' = (if promotion_condition I f L b index v
                   then setVoxel L b index (v\<lparr>ever_free := True\<rparr>) else L)"
    by blast
  then show ?thesis by (simp add: promote_def voxelAt_setVoxel)
qed

lemma makeEverFree_loop_same:
  "forEach is (makeEverFree_voxel I f b) L = Some L' \<Longrightarrow> same_but_ever_free L L'"
proof (induction "is" arbitrary: L)
  case Nil
  then show ?case by (simp add: same_but_ever_free_refl)
next
  case (Cons i "is")
  then obtain L1 where L1: "makeEverFree_voxel I f b i L = Some L1"
      "forEach is (makeEverFree_voxel I f b) L1 = Some L'"
    by (auto split: option.splits)
  from same_but_ever_free_trans[OF makeEverFree_voxel_same[OF L1(1)] Cons.IH[OF L1(2)]]
  show ?case .
qed

lemma makeEverFree_loop_at:
  "forEach is (makeEverFree_voxel I f b) L = Some L' \<Longrightarrow> distinct is \<Longrightarrow>
   voxelAt L' b' i =
     (if b' = b \<and> i \<in> set is then map_option (promote I f L b i) (voxelAt L b i)
      else voxelAt L b' i)"
proof (induction "is" arbitrary: L)
  case Nil
  then show ?case by simp
next
  case (Cons i0 "is")
  then obtain L1 where L1: "makeEverFree_voxel I f b i0 L = Some L1"
      "forEach is (makeEverFree_voxel I f b) L1 = Some L'"
    by (auto split: option.splits)
  from Cons.prems(2) have d: "distinct is" and notin: "i0 \<notin> set is" by simp_all
  have IH: "voxelAt L' b' i =
     (if b' = b \<and> i \<in> set is then map_option (promote I f L1 b i) (voxelAt L1 b i)
      else voxelAt L1 b' i)"
    by (rule Cons.IH[OF L1(2) d])
  have pr: "promote I f L1 b i = promote I f L b i"
    by (rule ext)
       (simp add: promote_def
          same_but_ever_free_promotion_condition[OF makeEverFree_voxel_same[OF L1(1)]])
  note at1 = makeEverFree_voxel_at[OF L1(1)]
  show ?case
  proof (cases "b' = b \<and> i \<in> set is")
    case True
    with notin have "i \<noteq> i0" by blast
    with True IH pr at1[of b i] show ?thesis by simp
  next
    case False
    with IH have "voxelAt L' b' i = voxelAt L1 b' i" by simp
    with at1[of b' i] False show ?thesis by auto
  qed
qed

lemma voxelAt_modifyBlock_flag:
  "voxelAt (modifyBlock L b (\<lambda>blk. blk\<lparr>updated_esdf := u\<rparr>)) b' i = voxelAt L b' i"
  by (auto simp: voxelAt_def getBlock_modifyBlock getVoxelByLinearIndex_def split: option.splits)

lemma makeEverFree_at:
  assumes "makeEverFree I b f L = Some L'" and "hasBlock L b"
  shows "voxelAt L' b' i =
     (if b' = b \<and> i < voxels_per_block I then map_option (promote I f L b i) (voxelAt L b i)
      else voxelAt L b' i)"
proof -
  from assms obtain L1 where
    L1: "forEach [0..<voxels_per_block I] (makeEverFree_voxel I f b) L = Some L1"
    and L': "L' = modifyBlock L1 b (\<lambda>blk. blk\<lparr>updated_esdf := False\<rparr>)"
    by (auto simp: makeEverFree_def hasBlock_def split: option.splits)
  from makeEverFree_loop_at[OF L1, of b' i] L' show ?thesis
    by (simp add: voxelAt_modifyBlock_flag)
qed


subsection \<open>Well-formed layers\<close>

text \<open>
  On a well-formed layer every access of the update is in range.
\<close>

lemma layer_ok_shape: "layer_ok G L = list_all (\<lambda>e. fst (snd e) = voxels_per_block G) (shape L)"
  by (simp add: layer_ok_def shape_def list.pred_map comp_def)

lemma shape_layer_ok: "shape L' = shape L \<Longrightarrow> layer_ok G L' = layer_ok G L"
  by (simp add: layer_ok_shape)

lemma layer_ok_block:
  "layer_ok G L \<Longrightarrow> getBlockPtrByIndex L b = Some blk \<Longrightarrow> length (voxels blk) = voxels_per_block G"
  by (auto simp: layer_ok_def getBlockPtrByIndex_def list_all_iff dest!: map_of_SomeD)

lemma layer_ok_voxelAt:
  "layer_ok G L \<Longrightarrow> hasBlock L b \<Longrightarrow> i < voxels_per_block G \<Longrightarrow> \<exists>v. voxelAt L b i = Some v"
  by (auto simp: hasBlock_def voxelAt_def getVoxelByLinearIndex_def dest: layer_ok_block)

lemma search_ok_in_range:
  assumes "layer_ok I L" and "search_ok I b" and "index < voxels_per_block I"
  shows "neighbors_in_range I L (neighborhood_search I b (computeVoxelIndexFromLinearIndex I index))"
proof -
  from assms(2,3) have
    "list_all (\<lambda>key. computeLinearIndexFromVoxelIndex I (snd key) < voxels_per_block I)
       (neighborhood_search I b (computeVoxelIndexFromLinearIndex I index))"
    by (simp add: search_ok_def list_all_iff)
  then show ?thesis
    using layer_ok_block[OF assms(1)]
    by (auto simp: neighbors_in_range_def list_all_iff split: option.splits)
qed

lemma makeEverFree_voxel_shape:
  "makeEverFree_voxel I f b index L = Some L' \<Longrightarrow> shape L' = shape L"
  using makeEverFree_voxel_result[of I f b index L L']
  by (auto simp: shape_setVoxel split: if_splits)

lemma makeEverFree_loop_shape:
  assumes "forEach ks (makeEverFree_voxel I f b) L = Some L'"
  shows "shape L' = shape L"
  using assms
  by (rule forEach_preserves[where P = "\<lambda>L1. shape L1 = shape L"])
     (simp_all add: makeEverFree_voxel_shape)

lemma makeEverFree_voxel_total:
  assumes "voxelAt L b index = Some v"
    and "neighbors_in_range I L (neighborhood_search I b (computeVoxelIndexFromLinearIndex I index))"
  shows "\<exists>L'. makeEverFree_voxel I f b index L = Some L'"
proof -
  from neighbor_loop_total[OF assms(2), of f] obtain r where
    "neighbor_occupied_or_unobserved I f L
       (neighborhood_search I b (computeVoxelIndexFromLinearIndex I index)) = Some r" by blast
  with assms(1) show ?thesis by (simp add: makeEverFree_voxel_def)
qed

lemma makeEverFree_loop_total:
  assumes "layer_ok I L" and "search_ok I b" and "hasBlock L b"
    and "set is \<subseteq> {0..<voxels_per_block I}"
  shows "\<exists>L'. forEach is (makeEverFree_voxel I f b) L = Some L' \<and> shape L' = shape L"
proof (rule forEach_total[where P = "\<lambda>L1. shape L1 = shape L"])
  show "shape L = shape L" by simp
next
  fix index L1
  assume index: "index \<in> set is" and sh: "shape L1 = shape L"
  from index assms(4) have lt: "index < voxels_per_block I" by auto
  from assms(1) shape_layer_ok[OF sh, of I] have ok1: "layer_ok I L1" by simp
  from assms(3) shape_hasBlock[OF sh, of b] have "hasBlock L1 b" by simp
  from layer_ok_voxelAt[OF ok1 this lt] obtain v where v: "voxelAt L1 b index = Some v" by blast
  from makeEverFree_voxel_total[OF v search_ok_in_range[OF ok1 assms(2) lt], of f]
  obtain L2 where L2: "makeEverFree_voxel I f b index L1 = Some L2" by blast
  from makeEverFree_voxel_shape[OF L2] sh
  have "shape L2 = shape L" by simp
  with L2 show "\<exists>t'. makeEverFree_voxel I f b index L1 = Some t' \<and> shape t' = shape L" by blast
qed

lemma makeEverFree_total:
  assumes "layer_ok I L" and "search_ok I b"
  shows "\<exists>L'. makeEverFree I b f L = Some L'"
proof (cases "getBlockPtrByIndex L b")
  case None
  then show ?thesis by (simp add: makeEverFree_def)
next
  case (Some blk)
  then have "hasBlock L b" by (simp add: hasBlock_def)
  from makeEverFree_loop_total[OF assms this, of "[0..<voxels_per_block I]" f] Some
  show ?thesis by (auto simp: makeEverFree_def)
qed

subsection \<open>The first loop of updateEverFreeVoxels\<close>

lemma index_roundtripD:
  "index_roundtrip G \<Longrightarrow> index < voxels_per_block G \<Longrightarrow>
   computeLinearIndexFromVoxelIndex G (computeVoxelIndexFromLinearIndex G index) = index"
  by (simp add: index_roundtrip_def list_all_iff)

lemma updateEverFreeVoxels_voxel_shape:
  "updateEverFreeVoxels_voxel I f b index L = Some L' \<Longrightarrow> shape L' = shape L"
  by (auto simp: updateEverFreeVoxels_voxel_def Let_def shape_setVoxel
           split: option.splits if_splits dest!: removeEverFree_shape)

lemma updateEverFreeVoxels_voxel_total:
  assumes "layer_ok I L" and "index_roundtrip I" and "search_ok I b" and "hasBlock L b"
    and "index < voxels_per_block I"
  shows "\<exists>L'. updateEverFreeVoxels_voxel I f b index L = Some L'"
proof -
  from layer_ok_voxelAt[OF assms(1,4,5)] obtain v where v: "voxelAt L b index = Some v" by blast
  let ?v = "updateEverFreeVoxels_occupancy (config I) f v"
  let ?L1 = "setVoxel L b index ?v"
  let ?vi = "computeVoxelIndexFromLinearIndex I index"
  from v have "voxelAt ?L1 b (computeLinearIndexFromVoxelIndex I ?vi) = Some ?v"
    by (simp add: voxelAt_setVoxel index_roundtripD[OF assms(2,5)])
  moreover from search_ok_in_range[OF assms(1,3,5)]
    shape_neighbors_in_range[OF shape_setVoxel, of I L b index ?v "neighborhood_search I b ?vi"]
  have "neighbors_in_range I ?L1 (neighborhood_search I b ?vi)" by simp
  ultimately obtain L' where "removeEverFree I b ?vi ?L1 = Some L'"
    using removeEverFree_total by blast
  with v show ?thesis by (simp add: updateEverFreeVoxels_voxel_def Let_def)
qed

lemma updateEverFreeVoxels_block_shape:
  assumes "updateEverFreeVoxels_block I f b L = Some L'"
  shows "shape L' = shape L"
proof (cases "getBlockPtrByIndex L b")
  case None
  with assms show ?thesis by (simp add: updateEverFreeVoxels_block_def)
next
  case (Some blk)
  with assms have "forEach [0..<voxels_per_block I] (updateEverFreeVoxels_voxel I f b) L = Some L'"
    by (simp add: updateEverFreeVoxels_block_def)
  then show ?thesis
    by (rule forEach_preserves[where P = "\<lambda>L1. shape L1 = shape L"])
       (simp_all add: updateEverFreeVoxels_voxel_shape)
qed

lemma updateEverFreeVoxels_block_total:
  assumes "layer_ok I L" and "index_roundtrip I" and "search_ok I b"
  shows "\<exists>L'. updateEverFreeVoxels_block I f b L = Some L' \<and> shape L' = shape L"
proof (cases "getBlockPtrByIndex L b")
  case None
  then show ?thesis by (simp add: updateEverFreeVoxels_block_def)
next
  case (Some blk)
  then have hb: "hasBlock L b" by (simp add: hasBlock_def)
  have "\<exists>L'. forEach [0..<voxels_per_block I] (updateEverFreeVoxels_voxel I f b) L = Some L'
          \<and> shape L' = shape L"
  proof (rule forEach_total[where P = "\<lambda>L1. shape L1 = shape L"])
    show "shape L = shape L" by simp
  next
    fix index L1
    assume index: "index \<in> set [0..<voxels_per_block I]" and sh: "shape L1 = shape L"
    from index have lt: "index < voxels_per_block I" by simp
    from assms(1) shape_layer_ok[OF sh, of I] have ok1: "layer_ok I L1" by simp
    from hb shape_hasBlock[OF sh, of b] have hb1: "hasBlock L1 b" by simp
    from updateEverFreeVoxels_voxel_total[OF ok1 assms(2,3) hb1 lt, of f] obtain L2
      where L2: "updateEverFreeVoxels_voxel I f b index L1 = Some L2" by blast
    from updateEverFreeVoxels_voxel_shape[OF L2] sh have "shape L2 = shape L" by simp
    with L2 show "\<exists>t'. updateEverFreeVoxels_voxel I f b index L1 = Some t' \<and> shape t' = shape L"
      by blast
  qed
  with Some show ?thesis by (simp add: updateEverFreeVoxels_block_def)
qed

lemma remove_occupied_shape:
  assumes "updateEverFreeVoxels_remove_occupied I f bs L = Some L'"
  shows "shape L' = shape L"
  using assms unfolding updateEverFreeVoxels_remove_occupied_def
  by (rule forEach_preserves[where P = "\<lambda>L1. shape L1 = shape L"])
     (simp_all add: updateEverFreeVoxels_block_shape)

lemma remove_occupied_total:
  assumes "layer_ok I L" and "index_roundtrip I" and "list_all (search_ok I) bs"
  shows "\<exists>L'. updateEverFreeVoxels_remove_occupied I f bs L = Some L' \<and> shape L' = shape L"
  unfolding updateEverFreeVoxels_remove_occupied_def
proof (rule forEach_total[where P = "\<lambda>L1. shape L1 = shape L"])
  show "shape L = shape L" by simp
next
  fix b L1
  assume b: "b \<in> set bs" and sh: "shape L1 = shape L"
  from b assms(3) have sok: "search_ok I b" by (simp add: list_all_iff)
  from assms(1) shape_layer_ok[OF sh, of I] have ok1: "layer_ok I L1" by simp
  from updateEverFreeVoxels_block_total[OF ok1 assms(2) sok, of f] sh
  show "\<exists>t'. updateEverFreeVoxels_block I f b L1 = Some t' \<and> shape t' = shape L" by auto
qed

subsection \<open>The second loop and the updated bits\<close>

lemma getAllUpdatedBlocks_reset:
  "getAllUpdatedBlocks (modifyBlock L b (\<lambda>blk. blk\<lparr>updated_esdf := False\<rparr>))
   = filter (\<lambda>k. k \<noteq> b) (getAllUpdatedBlocks L)"
  by (induction L) (auto simp: getAllUpdatedBlocks_def modifyBlock_def)

lemma getAllUpdatedBlocks_keys: "set (getAllUpdatedBlocks L) \<subseteq> fst ` set L"
  by (auto simp: getAllUpdatedBlocks_def)

lemma updated_hasBlock: "b \<in> set (getAllUpdatedBlocks L) \<Longrightarrow> hasBlock L b"
  using getAllUpdatedBlocks_keys[of L]
  by (auto simp: hasBlock_def getBlockPtrByIndex_def map_of_eq_None_iff)

lemma makeEverFree_updated:
  assumes "makeEverFree I b f L = Some L'"
  shows "getAllUpdatedBlocks L' = filter (\<lambda>k. k \<noteq> b) (getAllUpdatedBlocks L)"
proof (cases "getBlockPtrByIndex L b")
  case None
  with assms have "L' = L" by (simp add: makeEverFree_def)
  moreover from None updated_hasBlock[of b L] have "b \<notin> set (getAllUpdatedBlocks L)"
    by (auto simp: hasBlock_def)
  then have "filter (\<lambda>k. k \<noteq> b) (getAllUpdatedBlocks L) = getAllUpdatedBlocks L"
    by (simp add: filter_id_conv) blast
  ultimately show ?thesis by simp
next
  case (Some blk)
  with assms obtain L1 where
    L1: "forEach [0..<voxels_per_block I] (makeEverFree_voxel I f b) L = Some L1"
    and L': "L' = modifyBlock L1 b (\<lambda>blk. blk\<lparr>updated_esdf := False\<rparr>)"
    by (auto simp: makeEverFree_def split: option.splits)
  from shape_getAllUpdatedBlocks[OF makeEverFree_loop_shape[OF L1]] L'
  show ?thesis by (simp add: getAllUpdatedBlocks_reset)
qed

lemma makeEverFree_loop_updated:
  "forEach bs (\<lambda>index. makeEverFree I index f) L = Some L' \<Longrightarrow>
   getAllUpdatedBlocks L' = filter (\<lambda>k. k \<notin> set bs) (getAllUpdatedBlocks L)"
proof (induction bs arbitrary: L)
  case Nil
  then show ?case by simp
next
  case (Cons b bs)
  then obtain L1 where L1: "makeEverFree I b f L = Some L1"
      "forEach bs (\<lambda>index. makeEverFree I index f) L1 = Some L'"
    by (auto split: option.splits)
  from Cons.IH[OF L1(2)] makeEverFree_updated[OF L1(1)] show ?case
    by (simp add: conj_commute)
qed

lemma layer_ok_modifyBlock_flag:
  "layer_ok G (modifyBlock L b (\<lambda>blk. blk\<lparr>updated_esdf := u\<rparr>)) = layer_ok G L"
  by (induction L) (auto simp: layer_ok_def modifyBlock_def)

lemma makeEverFree_layer_ok:
  assumes "makeEverFree I b f L = Some L'"
  shows "layer_ok G L' = layer_ok G L"
proof (cases "getBlockPtrByIndex L b")
  case None
  with assms show ?thesis by (simp add: makeEverFree_def)
next
  case (Some blk)
  with assms obtain L1 where
    L1: "forEach [0..<voxels_per_block I] (makeEverFree_voxel I f b) L = Some L1"
    and L': "L' = modifyBlock L1 b (\<lambda>blk. blk\<lparr>updated_esdf := False\<rparr>)"
    by (auto simp: makeEverFree_def split: option.splits)
  from shape_layer_ok[OF makeEverFree_loop_shape[OF L1], of G] L'
  show ?thesis by (simp add: layer_ok_modifyBlock_flag)
qed

lemma label_free_total:
  assumes "layer_ok I L" and "list_all (search_ok I) bs"
  shows "\<exists>L'. forEach bs (\<lambda>index. makeEverFree I index f) L = Some L' \<and> layer_ok I L'"
proof (rule forEach_total[where P = "layer_ok I"])
  show "layer_ok I L" by (rule assms(1))
next
  fix b L1
  assume b: "b \<in> set bs" and ok1: "layer_ok I L1"
  from b assms(2) have sok: "search_ok I b" by (simp add: list_all_iff)
  from makeEverFree_total[OF ok1 sok, of f] obtain L2 where L2: "makeEverFree I b f L1 = Some L2"
    by blast
  with makeEverFree_layer_ok[OF L2, of I] ok1
  show "\<exists>t'. makeEverFree I b f L1 = Some t' \<and> layer_ok I t'" by simp
qed

lemma updateEverFreeVoxels_total:
  assumes "update_ok I L"
  shows "\<exists>L'. updateEverFreeVoxels I f L = Some L'"
proof -
  from assms have ok: "layer_ok I L" and rt: "index_roundtrip I"
    and sok: "list_all (search_ok I) (getAllUpdatedBlocks L)"
    by (simp_all add: update_ok_def)
  from remove_occupied_total[OF ok rt sok, of f] obtain L1 where
    L1: "updateEverFreeVoxels_remove_occupied I f (getAllUpdatedBlocks L) L = Some L1"
    and sh: "shape L1 = shape L" by blast
  from ok shape_layer_ok[OF sh, of I] have ok1: "layer_ok I L1" by simp
  from label_free_total[OF ok1 sok, of f] obtain L2 where
    "forEach (getAllUpdatedBlocks L) (\<lambda>index. makeEverFree I index f) L1 = Some L2" by blast
  with L1 show ?thesis by (simp add: updateEverFreeVoxels_def Let_def)
qed

lemma updateEverFreeVoxels_resets:
  assumes "updateEverFreeVoxels I f L = Some L'" and "num_threads (config I) \<ge> 1"
  shows "getAllUpdatedBlocks L' = []"
proof -
  from assms obtain L1 where
    L1: "updateEverFreeVoxels_remove_occupied I f (getAllUpdatedBlocks L) L = Some L1"
    and L': "forEach (getAllUpdatedBlocks L) (\<lambda>index. makeEverFree I index f) L1 = Some L'"
    by (auto simp: updateEverFreeVoxels_def Let_def split: option.splits)
  from makeEverFree_loop_updated[OF L'] shape_getAllUpdatedBlocks[OF remove_occupied_shape[OF L1]]
  show ?thesis by simp
qed

subsection \<open>The second loop does not depend on the order of the blocks\<close>

lemma makeEverFree_same:
  assumes "makeEverFree I b f L = Some L'"
  shows "same_but_ever_free L L'"
proof (cases "getBlockPtrByIndex L b")
  case None
  with assms show ?thesis by (simp add: makeEverFree_def same_but_ever_free_refl)
next
  case (Some blk)
  with assms obtain L1 where
    L1: "forEach [0..<voxels_per_block I] (makeEverFree_voxel I f b) L = Some L1"
    and L': "L' = modifyBlock L1 b (\<lambda>blk. blk\<lparr>updated_esdf := False\<rparr>)"
    by (auto simp: makeEverFree_def split: option.splits)
  from makeEverFree_loop_same[OF L1] L' show ?thesis
    by (simp add: same_but_ever_free_def voxelAt_modifyBlock_flag)
qed

lemma promote_idem:
  "promote I f L b i (promote I f L b i v) = promote I f L b i v"
  by (simp add: promote_def promotion_condition_def)

lemma promote_same:
  assumes "same_but_ever_free L L1"
  shows "promote I f L1 b i = promote I f L b i"
  by (rule ext) (simp add: promote_def same_but_ever_free_promotion_condition[OF assms])

lemma makeEverFree_at_any:
  assumes "makeEverFree I b f L = Some L'"
  shows "voxelAt L' b' i =
     (if b' = b \<and> i < voxels_per_block I then map_option (promote I f L b i) (voxelAt L b i)
      else voxelAt L b' i)"
proof (cases "hasBlock L b")
  case True
  from makeEverFree_at[OF assms True] show ?thesis .
next
  case False
  with assms have "L' = L" by (simp add: makeEverFree_def hasBlock_def)
  moreover from False have "voxelAt L b i = None" by (simp add: hasBlock_def voxelAt_def)
  ultimately show ?thesis by auto
qed

lemma label_free_at:
  "forEach bs (\<lambda>index. makeEverFree I index f) L = Some L' \<Longrightarrow>
   voxelAt L' b i =
     (if b \<in> set bs \<and> i < voxels_per_block I then map_option (promote I f L b i) (voxelAt L b i)
      else voxelAt L b i)"
proof (induction bs arbitrary: L)
  case Nil
  then show ?case by simp
next
  case (Cons b0 bs)
  then obtain L1 where L1: "makeEverFree I b0 f L = Some L1"
      "forEach bs (\<lambda>index. makeEverFree I index f) L1 = Some L'"
    by (auto split: option.splits)
  note IH = Cons.IH[OF L1(2)]
  note pr = promote_same[OF makeEverFree_same[OF L1(1)], of I f b i]
  note at1 = makeEverFree_at_any[OF L1(1), of b i]
  show ?case
  proof (cases "b \<in> set bs \<and> i < voxels_per_block I")
    case True
    with IH pr have "voxelAt L' b i = map_option (promote I f L b i) (voxelAt L1 b i)" by simp
    with at1 True show ?thesis
      by (cases "voxelAt L b i") (auto simp: promote_idem)
  next
    case False
    with IH have "voxelAt L' b i = voxelAt L1 b i" by auto
    with at1 False show ?thesis by auto
  qed
qed

lemma label_free_order_independent:
  assumes "forEach bs (\<lambda>index. makeEverFree I index f) L = Some L1"
    and "forEach bs' (\<lambda>index. makeEverFree I index f) L = Some L2"
    and "set bs = set bs'"
  shows "voxelAt L1 b i = voxelAt L2 b i"
    and "getAllUpdatedBlocks L1 = getAllUpdatedBlocks L2"
  using label_free_at[OF assms(1)] label_free_at[OF assms(2)]
        makeEverFree_loop_updated[OF assms(1)] makeEverFree_loop_updated[OF assms(2)] assms(3)
  by simp_all

subsection \<open>The dynamic flags\<close>

text \<open>
  No operation of the update sets a \<open>dynamic\<close> flag or writes \<open>last_lidar_occupied\<close>.
\<close>

lemma no_new_dynamic_refl: "no_new_dynamic L L"
  by (simp add: no_new_dynamic_def split: option.splits)

lemma no_new_dynamic_trans:
  assumes "no_new_dynamic L L1" and "no_new_dynamic L1 L2"
  shows "no_new_dynamic L L2"
  unfolding no_new_dynamic_def
proof (intro allI)
  fix b i
  from assms(1) have a: "case voxelAt L b i of
              None \<Rightarrow> voxelAt L1 b i = None
            | Some v \<Rightarrow>
                (case voxelAt L1 b i of
                   None \<Rightarrow> False
                 | Some v' \<Rightarrow> last_lidar_occupied v' = last_lidar_occupied v
                              \<and> (dynamic v' \<longrightarrow> dynamic v))"
    unfolding no_new_dynamic_def by blast
  from assms(2) have b: "case voxelAt L1 b i of
              None \<Rightarrow> voxelAt L2 b i = None
            | Some v \<Rightarrow>
                (case voxelAt L2 b i of
                   None \<Rightarrow> False
                 | Some v' \<Rightarrow> last_lidar_occupied v' = last_lidar_occupied v
                              \<and> (dynamic v' \<longrightarrow> dynamic v))"
    unfolding no_new_dynamic_def by blast
  from a b show "case voxelAt L b i of
              None \<Rightarrow> voxelAt L2 b i = None
            | Some v \<Rightarrow>
                (case voxelAt L2 b i of
                   None \<Rightarrow> False
                 | Some v' \<Rightarrow> last_lidar_occupied v' = last_lidar_occupied v
                              \<and> (dynamic v' \<longrightarrow> dynamic v))"
    by (cases "voxelAt L b i"; cases "voxelAt L1 b i"; cases "voxelAt L2 b i") auto
qed

lemma no_new_dynamicD:
  assumes "no_new_dynamic L L'" and "voxelAt L b i = Some v"
  shows "\<exists>v'. voxelAt L' b i = Some v' \<and> last_lidar_occupied v' = last_lidar_occupied v
            \<and> (dynamic v' \<longrightarrow> dynamic v)"
proof -
  from assms(1) have "case voxelAt L b i of
              None \<Rightarrow> voxelAt L' b i = None
            | Some v \<Rightarrow>
                (case voxelAt L' b i of
                   None \<Rightarrow> False
                 | Some v' \<Rightarrow> last_lidar_occupied v' = last_lidar_occupied v
                              \<and> (dynamic v' \<longrightarrow> dynamic v))"
    unfolding no_new_dynamic_def by blast
  with assms(2) show ?thesis by (cases "voxelAt L' b i") auto
qed

lemma no_new_dynamic_setVoxel:
  assumes "voxelAt L b i = Some v" and "last_lidar_occupied v' = last_lidar_occupied v"
    and "dynamic v' \<longrightarrow> dynamic v"
  shows "no_new_dynamic L (setVoxel L b i v')"
  unfolding no_new_dynamic_def using assms
  by (auto simp: voxelAt_setVoxel split: option.splits)

lemma removeEverFree_neighbor_no_new_dynamic:
  "removeEverFree_neighbor G key L = Some L' \<Longrightarrow> no_new_dynamic L L'"
  by (auto simp: removeEverFree_neighbor_def no_new_dynamic_refl clearEverFree_def
                 getVoxelByVoxelIndex_voxelAt
           split: option.splits intro!: no_new_dynamic_setVoxel)

lemma removeEverFree_no_new_dynamic:
  assumes "removeEverFree I b vi L = Some L'"
  shows "no_new_dynamic L L'"
proof -
  from assms obtain blk v where blk: "getBlockPtrByIndex L b = Some blk"
    and v: "getVoxelByVoxelIndex I blk vi = Some v"
    and loop: "forEach (neighborhood_search I b vi) (removeEverFree_neighbor I)
                 (setVoxel L b (computeLinearIndexFromVoxelIndex I vi) (clearEverFree v)) = Some L'"
    by (auto simp: removeEverFree_def split: option.splits)
  from blk v have "voxelAt L b (computeLinearIndexFromVoxelIndex I vi) = Some v"
    by (simp add: getVoxelByVoxelIndex_voxelAt)
  then have "no_new_dynamic L (setVoxel L b (computeLinearIndexFromVoxelIndex I vi) (clearEverFree v))"
    by (rule no_new_dynamic_setVoxel) (simp_all add: clearEverFree_def)
  moreover from loop have
    "no_new_dynamic (setVoxel L b (computeLinearIndexFromVoxelIndex I vi) (clearEverFree v)) L'"
    by (rule forEach_rel)
       (auto intro: no_new_dynamic_refl no_new_dynamic_trans removeEverFree_neighbor_no_new_dynamic)
  ultimately show ?thesis by (rule no_new_dynamic_trans)
qed

lemma occupancy_last_lidar_occupied:
  "last_lidar_occupied (updateEverFreeVoxels_occupancy c f v) = last_lidar_occupied v"
  by (simp add: updateEverFreeVoxels_occupancy_def updateOccupancyCounter_def Let_def)

lemma occupancy_dynamic:
  "dynamic (updateEverFreeVoxels_occupancy c f v) \<longleftrightarrow>
   dynamic v \<and> \<not> last_lidar_occupied v < f - temporal_buffer c"
  by (simp add: updateEverFreeVoxels_occupancy_def updateOccupancyCounter_def Let_def)

lemma updateEverFreeVoxels_voxel_no_new_dynamic:
  assumes "updateEverFreeVoxels_voxel I f b index L = Some L'"
  shows "no_new_dynamic L L'"
proof -
  from assms obtain v where v: "voxelAt L b index = Some v"
    by (auto simp: updateEverFreeVoxels_voxel_def split: option.splits)
  let ?L1 = "setVoxel L b index (updateEverFreeVoxels_occupancy (config I) f v)"
  from v have 1: "no_new_dynamic L ?L1"
    by (rule no_new_dynamic_setVoxel) (simp_all add: occupancy_last_lidar_occupied occupancy_dynamic)
  from assms v have "L' = ?L1 \<or> removeEverFree I b (computeVoxelIndexFromLinearIndex I index) ?L1 = Some L'"
    by (auto simp: updateEverFreeVoxels_voxel_def Let_def split: if_splits)
  then show ?thesis
    using 1 removeEverFree_no_new_dynamic no_new_dynamic_trans by blast
qed

lemma updateEverFreeVoxels_voxel_clears_dynamic:
  assumes "updateEverFreeVoxels_voxel I f b index L = Some L'"
    and "voxelAt L b index = Some v"
    and "last_lidar_occupied v < f - temporal_buffer (config I)"
  shows "\<exists>v'. voxelAt L' b index = Some v' \<and> \<not> dynamic v'"
proof -
  let ?v = "updateEverFreeVoxels_occupancy (config I) f v"
  let ?L1 = "setVoxel L b index ?v"
  from assms(2) have at1: "voxelAt ?L1 b index = Some ?v" by (simp add: voxelAt_setVoxel)
  from assms(3) have nd: "\<not> dynamic ?v" by (simp add: occupancy_dynamic)
  from assms(1,2) have "L' = ?L1 \<or> removeEverFree I b (computeVoxelIndexFromLinearIndex I index) ?L1 = Some L'"
    by (auto simp: updateEverFreeVoxels_voxel_def Let_def split: if_splits)
  then show ?thesis
  proof
    assume "L' = ?L1"
    with at1 nd show ?thesis by simp
  next
    assume "removeEverFree I b (computeVoxelIndexFromLinearIndex I index) ?L1 = Some L'"
    from no_new_dynamicD[OF removeEverFree_no_new_dynamic[OF this] at1] nd show ?thesis by auto
  qed
qed

lemma updateEverFreeVoxels_block_no_new_dynamic:
  assumes "updateEverFreeVoxels_block I f b L = Some L'"
  shows "no_new_dynamic L L'"
proof (cases "getBlockPtrByIndex L b")
  case None
  with assms show ?thesis by (simp add: updateEverFreeVoxels_block_def no_new_dynamic_refl)
next
  case (Some blk)
  with assms have "forEach [0..<voxels_per_block I] (updateEverFreeVoxels_voxel I f b) L = Some L'"
    by (simp add: updateEverFreeVoxels_block_def)
  then show ?thesis
    by (rule forEach_rel)
       (auto intro: no_new_dynamic_refl no_new_dynamic_trans updateEverFreeVoxels_voxel_no_new_dynamic)
qed

lemma same_but_ever_free_no_new_dynamic:
  assumes "same_but_ever_free L L'"
  shows "no_new_dynamic L L'"
  unfolding no_new_dynamic_def
proof (intro allI)
  fix b i
  from assms have "map_option (\<lambda>v. v\<lparr>ever_free := False\<rparr>) (voxelAt L' b i)
              = map_option (\<lambda>v. v\<lparr>ever_free := False\<rparr>) (voxelAt L b i)"
    unfolding same_but_ever_free_def by blast
  then show "case voxelAt L b i of
              None \<Rightarrow> voxelAt L' b i = None
            | Some v \<Rightarrow>
                (case voxelAt L' b i of
                   None \<Rightarrow> False
                 | Some v' \<Rightarrow> last_lidar_occupied v' = last_lidar_occupied v
                              \<and> (dynamic v' \<longrightarrow> dynamic v))"
    by (cases "voxelAt L b i"; cases "voxelAt L' b i")
       (auto dest: arg_cong[where f = last_lidar_occupied] arg_cong[where f = dynamic])
qed

lemma makeEverFree_no_new_dynamic:
  assumes "makeEverFree I b f L = Some L'"
  shows "no_new_dynamic L L'"
proof (cases "getBlockPtrByIndex L b")
  case None
  with assms show ?thesis by (simp add: makeEverFree_def no_new_dynamic_refl)
next
  case (Some blk)
  with assms obtain L1 where
    L1: "forEach [0..<voxels_per_block I] (makeEverFree_voxel I f b) L = Some L1"
    and L': "L' = modifyBlock L1 b (\<lambda>blk. blk\<lparr>updated_esdf := False\<rparr>)"
    by (auto simp: makeEverFree_def split: option.splits)
  have "no_new_dynamic L1 L'"
    unfolding no_new_dynamic_def L' voxelAt_modifyBlock_flag
    by (simp split: option.splits)
  with same_but_ever_free_no_new_dynamic[OF makeEverFree_loop_same[OF L1]]
  show ?thesis by (rule no_new_dynamic_trans)
qed

subsection \<open>Occupancy counters stay non-negative\<close>

lemma counters_nonneg_iff:
  "counters_nonneg L \<longleftrightarrow> (\<forall>b i v. voxelAt L b i = Some v \<longrightarrow> 0 \<le> occ_counter v)"
proof
  assume a: "counters_nonneg L"
  show "\<forall>b i v. voxelAt L b i = Some v \<longrightarrow> 0 \<le> occ_counter v"
  proof (intro allI impI)
    fix b i v
    assume v: "voxelAt L b i = Some v"
    then obtain blk where blk: "getBlockPtrByIndex L b = Some blk"
      and i: "i < length (voxels blk)" and vi: "v = voxels blk ! i"
      by (auto simp: voxelAt_def getVoxelByLinearIndex_def split: option.splits if_splits)
    from blk have "(b, blk) \<in> set L" by (simp add: getBlockPtrByIndex_def map_of_SomeD)
    with a blk have "list_all (\<lambda>v. 0 \<le> occ_counter v) (voxels blk)"
      by (fastforce simp: counters_nonneg_def list_all_iff)
    with i vi show "0 \<le> occ_counter v" by (simp add: list_all_iff)
  qed
next
  assume a: "\<forall>b i v. voxelAt L b i = Some v \<longrightarrow> 0 \<le> occ_counter v"
  show "counters_nonneg L"
    unfolding counters_nonneg_def list_all_iff
  proof (intro ballI)
    fix kb
    assume "kb \<in> set L"
    show "case getBlockPtrByIndex L (fst kb) of None \<Rightarrow> True
          | Some blk \<Rightarrow> \<forall>v\<in>set (voxels blk). 0 \<le> occ_counter v"
    proof (cases "getBlockPtrByIndex L (fst kb)")
      case None
      then show ?thesis by simp
    next
      case (Some blk)
      have "0 \<le> occ_counter v" if "v \<in> set (voxels blk)" for v
      proof -
        from that obtain i where "i < length (voxels blk)" "voxels blk ! i = v"
          by (auto simp: in_set_conv_nth)
        with Some have "voxelAt L (fst kb) i = Some v"
          by (simp add: voxelAt_def getVoxelByLinearIndex_def)
        with a show ?thesis by blast
      qed
      with Some show ?thesis by simp
    qed
  qed
qed

lemma updateOccupancyCounter_nonneg:
  "0 \<le> occ_counter v \<Longrightarrow> 0 \<le> occ_counter (updateOccupancyCounter c v f)"
  by (simp add: updateOccupancyCounter_def Let_def)

lemma occupancy_nonneg:
  "0 \<le> occ_counter v \<Longrightarrow> 0 \<le> occ_counter (updateEverFreeVoxels_occupancy c f v)"
  by (simp add: updateEverFreeVoxels_occupancy_def updateOccupancyCounter_def Let_def)

lemma counters_nonneg_setVoxel:
  assumes "counters_nonneg L" and "0 \<le> occ_counter v"
  shows "counters_nonneg (setVoxel L b i v)"
  using assms unfolding counters_nonneg_iff
  by (auto simp: voxelAt_setVoxel split: if_splits)

lemma counters_nonnegD:
  "counters_nonneg L \<Longrightarrow> voxelAt L b i = Some v \<Longrightarrow> 0 \<le> occ_counter v"
  unfolding counters_nonneg_iff by blast

lemma removeEverFree_neighbor_counters:
  assumes "removeEverFree_neighbor G key L = Some L'" and "counters_nonneg L"
  shows "counters_nonneg L'"
proof (cases "getBlockPtrByIndex L (fst key)")
  case None
  with assms show ?thesis by (simp add: removeEverFree_neighbor_def)
next
  case (Some blk)
  with assms(1) obtain v where v: "getVoxelByVoxelIndex G blk (snd key) = Some v"
    and L': "L' = setVoxel L (fst key) (computeLinearIndexFromVoxelIndex G (snd key)) (clearEverFree v)"
    by (auto simp: removeEverFree_neighbor_def split: option.splits)
  from Some v have "voxelAt L (fst key) (computeLinearIndexFromVoxelIndex G (snd key)) = Some v"
    by (simp add: getVoxelByVoxelIndex_voxelAt)
  from counters_nonnegD[OF assms(2) this] have "0 \<le> occ_counter (clearEverFree v)"
    by (simp add: clearEverFree_def)
  from counters_nonneg_setVoxel[OF assms(2) this] L' show ?thesis by simp
qed

lemma removeEverFree_counters:
  assumes "removeEverFree I b vi L = Some L'" and "counters_nonneg L"
  shows "counters_nonneg L'"
proof -
  from assms obtain blk v where blk: "getBlockPtrByIndex L b = Some blk"
    and v: "getVoxelByVoxelIndex I blk vi = Some v"
    and loop: "forEach (neighborhood_search I b vi) (removeEverFree_neighbor I)
                 (setVoxel L b (computeLinearIndexFromVoxelIndex I vi) (clearEverFree v)) = Some L'"
    by (auto simp: removeEverFree_def split: option.splits)
  from blk v have "voxelAt L b (computeLinearIndexFromVoxelIndex I vi) = Some v"
    by (simp add: getVoxelByVoxelIndex_voxelAt)
  from counters_nonnegD[OF assms(2) this] have "0 \<le> occ_counter (clearEverFree v)"
    by (simp add: clearEverFree_def)
  from counters_nonneg_setVoxel[OF assms(2) this]
  have "counters_nonneg (setVoxel L b (computeLinearIndexFromVoxelIndex I vi) (clearEverFree v))" .
  with loop show ?thesis
    by (rule forEach_preserves) (rule removeEverFree_neighbor_counters)
qed

lemma updateEverFreeVoxels_voxel_counters:
  assumes "updateEverFreeVoxels_voxel I f b index L = Some L'" and "counters_nonneg L"
  shows "counters_nonneg L'"
proof -
  from assms(1) obtain v where v: "voxelAt L b index = Some v"
    by (auto simp: updateEverFreeVoxels_voxel_def split: option.splits)
  let ?L1 = "setVoxel L b index (updateEverFreeVoxels_occupancy (config I) f v)"
  from counters_nonnegD[OF assms(2) v] have "0 \<le> occ_counter (updateEverFreeVoxels_occupancy (config I) f v)"
    by (rule occupancy_nonneg)
  from counters_nonneg_setVoxel[OF assms(2) this] have 1: "counters_nonneg ?L1" .
  from assms(1) v have "L' = ?L1 \<or> removeEverFree I b (computeVoxelIndexFromLinearIndex I index) ?L1 = Some L'"
    by (auto simp: updateEverFreeVoxels_voxel_def Let_def split: if_splits)
  with 1 show ?thesis using removeEverFree_counters by blast
qed

lemma updateEverFreeVoxels_block_counters:
  assumes "updateEverFreeVoxels_block I f b L = Some L'" and "counters_nonneg L"
  shows "counters_nonneg L'"
proof (cases "getBlockPtrByIndex L b")
  case None
  with assms show ?thesis by (simp add: updateEverFreeVoxels_block_def)
next
  case (Some blk)
  with assms(1) have "forEach [0..<voxels_per_block I] (updateEverFreeVoxels_voxel I f b) L = Some L'"
    by (simp add: updateEverFreeVoxels_block_def)
  then show ?thesis using assms(2)
    by (rule forEach_preserves) (rule updateEverFreeVoxels_voxel_counters)
qed

lemma same_but_ever_free_counters:
  assumes "same_but_ever_free L L'" and "counters_nonneg L"
  shows "counters_nonneg L'"
  unfolding counters_nonneg_iff
proof (intro allI impI)
  fix b i v'
  assume v': "voxelAt L' b i = Some v'"
  from assms(1) have "map_option (\<lambda>v. v\<lparr>ever_free := False\<rparr>) (voxelAt L' b i)
              = map_option (\<lambda>v. v\<lparr>ever_free := False\<rparr>) (voxelAt L b i)"
    unfolding same_but_ever_free_def by blast
  with v' obtain v where v: "voxelAt L b i = Some v" "v'\<lparr>ever_free := False\<rparr> = v\<lparr>ever_free := False\<rparr>"
    by (cases "voxelAt L b i") auto
  from v(2) have "occ_counter v' = occ_counter v" by (auto dest: arg_cong[where f = occ_counter])
  with counters_nonnegD[OF assms(2) v(1)] show "0 \<le> occ_counter v'" by simp
qed

lemma updateEverFreeVoxels_counters:
  assumes "updateEverFreeVoxels I f L = Some L'" and "counters_nonneg L"
  shows "counters_nonneg L'"
proof -
  from assms(1) obtain L1 where
    A: "forEach (getAllUpdatedBlocks L) (updateEverFreeVoxels_block I f) L = Some L1"
    and B: "L' = L1 \<or> forEach (getAllUpdatedBlocks L) (\<lambda>index. makeEverFree I index f) L1 = Some L'"
    by (auto simp: updateEverFreeVoxels_def updateEverFreeVoxels_remove_occupied_def Let_def
             split: option.splits if_splits)
  from A assms(2) have 1: "counters_nonneg L1"
    by (rule forEach_preserves) (rule updateEverFreeVoxels_block_counters)
  from B show ?thesis
  proof
    assume "L' = L1" with 1 show ?thesis by simp
  next
    assume "forEach (getAllUpdatedBlocks L) (\<lambda>index. makeEverFree I index f) L1 = Some L'"
    then show ?thesis using 1
      by (rule forEach_preserves) (rule same_but_ever_free_counters[OF makeEverFree_same])
  qed
qed

subsection \<open>Index building\<close>





subsection \<open>The loop deriving filtered_out\<close>

lemma filteredOut_point_deriveFilteredOut:
  "i < length points \<Longrightarrow>
   filteredOut_point i points = Some (points[i := deriveFilteredOut (points ! i)])"
  by (simp add: filteredOut_point_def deriveFilteredOut_def)

lemma filteredOut_loop:
  "n \<le> length points \<Longrightarrow>
   forEach [0..<n] filteredOut_point points
     = Some (map deriveFilteredOut (take n points) @ drop n points)"
proof (induction n)
  case 0
  then show ?case by simp
next
  case (Suc n)
  then have n: "n < length points" by simp
  let ?mid = "map deriveFilteredOut (take n points) @ drop n points"
  from Suc have IH: "forEach [0..<n] filteredOut_point points = Some ?mid" by simp
  from n have "?mid ! n = points ! n" by (simp add: nth_append)
  moreover from n have "n < length ?mid" by simp
  ultimately have "filteredOut_point n ?mid = Some (?mid[n := deriveFilteredOut (points ! n)])"
    using filteredOut_point_deriveFilteredOut[of n ?mid] by simp
  moreover from n have "?mid[n := deriveFilteredOut (points ! n)]
      = map deriveFilteredOut (take (Suc n) points) @ drop (Suc n) points"
    by (simp add: take_Suc_conv_app_nth list_update_append Cons_nth_drop_Suc[symmetric])
  ultimately show ?case using IH by (simp add: forEach_append)
qed

lemma filteredOut_loop_throws:
  assumes "length points < n"
  shows "forEach [0..<n] filteredOut_point points = None"
proof -
  let ?m = "length points"
  from assms have "[0..<n] = [0..<?m] @ ?m # [Suc ?m..<n]"
    by (metis less_imp_le_nat upt_add_eq_append upt_conv_Cons le_add_diff_inverse le0)
  moreover have "forEach [0..<?m] filteredOut_point points = Some (map deriveFilteredOut points)"
    using filteredOut_loop[of ?m points] by simp
  moreover have "filteredOut_point ?m (map deriveFilteredOut points) = None"
    by (simp add: filteredOut_point_def)
  ultimately show ?thesis by (simp add: forEach_append)
qed

lemma filteredOut_loop_result:
  "forEach [0..<n] filteredOut_point points =
     (if n \<le> length points
      then Some (map deriveFilteredOut (take n points) @ drop n points) else None)"
  by (simp add: filteredOut_loop filteredOut_loop_throws)

section \<open>The properties\<close>

subsection \<open>The occupancy counter\<close>

text \<open>
  C3. For every voxel and every occupancy update at frame \<open>f\<close>: if
  \<open>f - last_occupied > temporal_buffer\<close> at the moment of the update, the occupancy counter
  is reset to exactly 1; otherwise it is incremented by exactly 1.
\<close>

theorem updateOccupancyCounter_reset_or_increment:
  "occ_counter (updateOccupancyCounter c v f) =
     (if f - last_occupied v > temporal_buffer c then 1 else occ_counter v + 1)"
  by (simp add: updateOccupancyCounter_def Let_def)

text \<open>Both branches, on the voxel last occupied in frame 9 with counter 2.\<close>

theorem updateOccupancyCounter_reset_or_increment_witness:
  "occ_counter (updateOccupancyCounter exampleConfig occupiedVoxel 11) = 3
   \<and> occ_counter (updateOccupancyCounter exampleConfig occupiedVoxel 12) = 1"
  using updateOccupancyCounter_reset_or_increment[of exampleConfig occupiedVoxel 11]
        updateOccupancyCounter_reset_or_increment[of exampleConfig occupiedVoxel 12]
  by (simp add: exampleConfig_def occupiedVoxel_def freeVoxel_def)

text \<open>
  C10. \<open>updateOccupancyCounter\<close> sets \<open>last_occupied\<close> to the current frame counter in both
  branches, and after the update the occupancy counter is at least 1. The reset branch
  writes 1; the increment branch adds one to the counter, so there the bound is that of a
  counter that was not negative before the update. No counter of the map is ever
  negative: the two writes of this function are the only writes of \<open>occ_counter\<close> in the
  source files, and the per-frame update \<open>updateEverFreeVoxels\<close> returns and leaves every
  counter of the map non-negative when every counter was non-negative before, as in a map
  of fresh voxels.
\<close>

theorem updateOccupancyCounter_last_occupied_and_counter:
  "last_occupied (updateOccupancyCounter c v f) = f
   \<and> (0 \<le> occ_counter v \<longrightarrow> 1 \<le> occ_counter (updateOccupancyCounter c v f))
   \<and> (update_ok I L \<and> counters_nonneg L \<longrightarrow>
        (\<exists>L'. updateEverFreeVoxels I f L = Some L' \<and> counters_nonneg L'))"
proof (intro conjI impI)
  show "last_occupied (updateOccupancyCounter c v f) = f"
    by (simp add: updateOccupancyCounter_def Let_def)
next
  assume "0 \<le> occ_counter v"
  then show "1 \<le> occ_counter (updateOccupancyCounter c v f)"
    by (simp add: updateOccupancyCounter_def Let_def)
next
  assume a: "update_ok I L \<and> counters_nonneg L"
  then obtain L' where L': "updateEverFreeVoxels I f L = Some L'"
    using updateEverFreeVoxels_total by blast
  with a have "counters_nonneg L'" using updateEverFreeVoxels_counters by blast
  with L' show "\<exists>L'. updateEverFreeVoxels I f L = Some L' \<and> counters_nonneg L'" by blast
qed

text \<open>
  On the voxel last occupied in frame 9 with counter 2, and on the map that holds it.
\<close>

theorem updateOccupancyCounter_last_occupied_and_counter_witness:
  "0 \<le> occ_counter occupiedVoxel
   \<and> update_ok exampleIntegrator occupiedLayer \<and> counters_nonneg occupiedLayer
   \<and> last_occupied (updateOccupancyCounter exampleConfig occupiedVoxel 10) = 10
   \<and> 1 \<le> occ_counter (updateOccupancyCounter exampleConfig occupiedVoxel 10)
   \<and> (\<exists>L'. updateEverFreeVoxels exampleIntegrator 10 occupiedLayer = Some L'
           \<and> counters_nonneg L')"
proof -
  have h1: "0 \<le> occ_counter occupiedVoxel" by code_simp
  have h2: "update_ok exampleIntegrator occupiedLayer" by code_simp
  have h3: "counters_nonneg occupiedLayer" by code_simp
  from updateOccupancyCounter_last_occupied_and_counter[of exampleConfig occupiedVoxel 10 exampleIntegrator occupiedLayer] h1 h2 h3
  show ?thesis by simp
qed

subsection \<open>Retraction\<close>

text \<open>
  C2. Whenever the occupancy counter of a cell has reached \<open>counter_to_reset\<close> in the
  per-frame update of that cell, \<open>removeEverFree\<close> is invoked on it, and immediately
  afterwards the cell and every one of its neighbours whose block exists in the map have
  \<open>ever_free = false\<close> and \<open>dynamic = false\<close>, whatever the neighbours' own counters are.
  The update of the cell returns whenever the neighbours lie inside their blocks.
\<close>

theorem retraction_clears_cell_and_neighbors:
  assumes "voxelAt L b index = Some v"
    and "counter_to_reset (config I) \<le> occ_counter (updateEverFreeVoxels_occupancy (config I) f v)"
    and "computeLinearIndexFromVoxelIndex I (computeVoxelIndexFromLinearIndex I index) = index"
    and "neighbors_in_range I L (neighborhood_search I b (computeVoxelIndexFromLinearIndex I index))"
  shows "\<exists>L'. updateEverFreeVoxels_voxel I f b index L = Some L'
           \<and> removeEverFree I b (computeVoxelIndexFromLinearIndex I index)
                (setVoxel L b index (updateEverFreeVoxels_occupancy (config I) f v)) = Some L'
           \<and> cleared L' b index
           \<and> (\<forall>key \<in> set (neighborhood_search I b (computeVoxelIndexFromLinearIndex I index)).
                 hasBlock L (fst key) \<longrightarrow>
                 cleared L' (fst key) (computeLinearIndexFromVoxelIndex I (snd key)))"
proof -
  let ?vi = "computeVoxelIndexFromLinearIndex I index"
  let ?v = "updateEverFreeVoxels_occupancy (config I) f v"
  let ?L1 = "setVoxel L b index ?v"
  from assms(1) have at: "voxelAt ?L1 b (computeLinearIndexFromVoxelIndex I ?vi) = Some ?v"
    by (simp add: voxelAt_setVoxel assms(3))
  from assms(4) shape_neighbors_in_range[OF shape_setVoxel, of I L b index ?v "neighborhood_search I b ?vi"]
  have "neighbors_in_range I ?L1 (neighborhood_search I b ?vi)" by simp
  from removeEverFree_total[OF at this] obtain L' where L': "removeEverFree I b ?vi ?L1 = Some L'"
    by blast
  from assms(1,2) L' have step: "updateEverFreeVoxels_voxel I f b index L = Some L'"
    by (simp add: updateEverFreeVoxels_voxel_def Let_def)
  from removeEverFree_cleared_self[OF L'] assms(3) have self: "cleared L' b index" by simp
  have "cleared L' (fst key) (computeLinearIndexFromVoxelIndex I (snd key))"
    if "key \<in> set (neighborhood_search I b ?vi)" and "hasBlock L (fst key)" for key
  proof -
    from that(2) shape_hasBlock[OF shape_setVoxel, of L b index ?v "fst key"]
    have "hasBlock ?L1 (fst key)" by simp
    from removeEverFree_cleared_neighbor[OF L' that(1) this] show ?thesis .
  qed
  with step L' self show ?thesis by blast
qed

text \<open>
  The voxel at the origin, occupied in frames 8 and 9 and again in frame 10, with
  \<open>counter_to_reset = 3\<close>: its third occupancy retracts it and its six neighbours, three of
  them in other blocks.
\<close>

theorem retraction_clears_cell_and_neighbors_witness:
  "voxelAt occupiedLayer (0, 0, 0) 0 = Some occupiedVoxel
   \<and> counter_to_reset (config exampleIntegrator)
       \<le> occ_counter (updateEverFreeVoxels_occupancy (config exampleIntegrator) 10 occupiedVoxel)
   \<and> computeLinearIndexFromVoxelIndex exampleIntegrator
         (computeVoxelIndexFromLinearIndex exampleIntegrator 0) = 0
   \<and> neighbors_in_range exampleIntegrator occupiedLayer
         (neighborhood_search exampleIntegrator (0, 0, 0)
            (computeVoxelIndexFromLinearIndex exampleIntegrator 0))
   \<and> neighborhood_search exampleIntegrator (0, 0, 0) (computeVoxelIndexFromLinearIndex exampleIntegrator 0)
       = [((-1, 0, 0), (1, 0, 0)), ((0, 0, 0), (1, 0, 0)), ((0, -1, 0), (0, 1, 0)),
          ((0, 0, 0), (0, 1, 0)), ((0, 0, -1), (0, 0, 1)), ((0, 0, 0), (0, 0, 1))]
   \<and> (\<exists>L'. updateEverFreeVoxels_voxel exampleIntegrator 10 (0, 0, 0) 0 occupiedLayer = Some L'
          \<and> cleared L' (0, 0, 0) 0
          \<and> cleared L' (-1, 0, 0) 1 \<and> cleared L' (0, 0, 0) 1
          \<and> cleared L' (0, -1, 0) 2 \<and> cleared L' (0, 0, 0) 2
          \<and> cleared L' (0, 0, -1) 4 \<and> cleared L' (0, 0, 0) 4)"
proof -
  have h1: "voxelAt occupiedLayer (0, 0, 0) 0 = Some occupiedVoxel" by code_simp
  have h2: "counter_to_reset (config exampleIntegrator)
       \<le> occ_counter (updateEverFreeVoxels_occupancy (config exampleIntegrator) 10 occupiedVoxel)"
    by code_simp
  have h3: "computeLinearIndexFromVoxelIndex exampleIntegrator
              (computeVoxelIndexFromLinearIndex exampleIntegrator 0) = 0" by code_simp
  have h4: "neighbors_in_range exampleIntegrator occupiedLayer
              (neighborhood_search exampleIntegrator (0, 0, 0)
                 (computeVoxelIndexFromLinearIndex exampleIntegrator 0))" by code_simp
  have keys: "neighborhood_search exampleIntegrator (0, 0, 0) (computeVoxelIndexFromLinearIndex exampleIntegrator 0)
       = [((-1, 0, 0), (1, 0, 0)), ((0, 0, 0), (1, 0, 0)), ((0, -1, 0), (0, 1, 0)),
          ((0, 0, 0), (0, 1, 0)), ((0, 0, -1), (0, 0, 1)), ((0, 0, 0), (0, 0, 1))]" by code_simp
  have lin: "computeLinearIndexFromVoxelIndex exampleIntegrator (1, 0, 0) = 1"
    "computeLinearIndexFromVoxelIndex exampleIntegrator (0, 1, 0) = 2"
    "computeLinearIndexFromVoxelIndex exampleIntegrator (0, 0, 1) = 4" by code_simp+
  have blocks: "hasBlock occupiedLayer (-1, 0, 0)" "hasBlock occupiedLayer (0, 0, 0)"
    "hasBlock occupiedLayer (0, -1, 0)" "hasBlock occupiedLayer (0, 0, -1)" by code_simp+
  from retraction_clears_cell_and_neighbors[OF h1 h2 h3 h4] obtain L' where
    L': "updateEverFreeVoxels_voxel exampleIntegrator 10 (0, 0, 0) 0 occupiedLayer = Some L'"
      "cleared L' (0, 0, 0) 0"
      "\<forall>key \<in> set (neighborhood_search exampleIntegrator (0, 0, 0)
                       (computeVoxelIndexFromLinearIndex exampleIntegrator 0)).
          hasBlock occupiedLayer (fst key) \<longrightarrow>
          cleared L' (fst key) (computeLinearIndexFromVoxelIndex exampleIntegrator (snd key))"
    by blast
  from L'(3) blocks have "cleared L' (-1, 0, 0) 1 \<and> cleared L' (0, 0, 0) 1
          \<and> cleared L' (0, -1, 0) 2 \<and> cleared L' (0, 0, 0) 2
          \<and> cleared L' (0, 0, -1) 4 \<and> cleared L' (0, 0, 0) 4"
    unfolding keys by (simp add: lin)
  with h1 h2 h3 h4 keys L'(1,2) show ?thesis by blast
qed

subsection \<open>Promotion\<close>

text \<open>
  C1, as far as it holds. For every voxel that \<open>makeEverFree\<close> considers in a frame, the
  voxel becomes ever-free in that frame iff its weight is above the threshold \<open>1e-6\<close>, it
  has been unoccupied for at least \<open>burn_in_period\<close> frames, it is not ever-free already,
  and every neighbour of the configured connectivity exists, has a weight not below
  \<open>1e-6\<close>, and has been unoccupied for at least \<open>burn_in_period\<close> frames as well. A single
  missing, occupied or unobserved neighbour blocks the promotion, and nothing else of the
  voxel changes. "Observed" is the weight test of the code, not a positive weight.
\<close>

theorem makeEverFree_promotes_iff:
  assumes "layer_ok I L" and "search_ok I b" and "hasBlock L b" and "index < voxels_per_block I"
  shows "\<exists>L' v v'. makeEverFree I b f L = Some L'
            \<and> voxelAt L b index = Some v \<and> voxelAt L' b index = Some v'
            \<and> v' = v\<lparr>ever_free := ever_free v'\<rparr>
            \<and> ((ever_free v' \<and> \<not> ever_free v) \<longleftrightarrow> promotion_condition I f L b index v)"
proof -
  from makeEverFree_total[OF assms(1,2), of f] obtain L' where L': "makeEverFree I b f L = Some L'"
    by blast
  from layer_ok_voxelAt[OF assms(1,3,4)] obtain v where v: "voxelAt L b index = Some v" by blast
  from makeEverFree_at[OF L' assms(3), of b index] assms(4) v
  have v': "voxelAt L' b index = Some (promote I f L b index v)" by simp
  have "promote I f L b index v = v\<lparr>ever_free := ever_free (promote I f L b index v)\<rparr>"
    by (simp add: promote_def)
  moreover have "(ever_free (promote I f L b index v) \<and> \<not> ever_free v)
                   \<longleftrightarrow> promotion_condition I f L b index v"
    by (auto simp: promote_def promotion_condition_def)
  ultimately show ?thesis using L' v v' by blast
qed

text \<open>
  In frame 10 the voxel at the origin of the example map, with its six neighbours
  observed and never occupied, becomes ever-free; the voxel at the opposite corner of the
  block has three neighbours in blocks that do not exist, and stays as it is.
\<close>

theorem makeEverFree_promotes_iff_witness:
  "layer_ok exampleIntegrator exampleLayer \<and> search_ok exampleIntegrator (0, 0, 0)
   \<and> hasBlock exampleLayer (0, 0, 0) \<and> 7 < voxels_per_block exampleIntegrator
   \<and> promotion_condition exampleIntegrator 10 exampleLayer (0, 0, 0) 0 freeVoxel
   \<and> \<not> promotion_condition exampleIntegrator 10 exampleLayer (0, 0, 0) 7 freeVoxel
   \<and> (\<exists>L' v0 v7. makeEverFree exampleIntegrator (0, 0, 0) 10 exampleLayer = Some L'
          \<and> voxelAt L' (0, 0, 0) 0 = Some v0 \<and> ever_free v0
          \<and> voxelAt L' (0, 0, 0) 7 = Some v7 \<and> \<not> ever_free v7)"
proof -
  have h1: "layer_ok exampleIntegrator exampleLayer" by code_simp
  have h2: "search_ok exampleIntegrator (0, 0, 0)" by code_simp
  have h3: "hasBlock exampleLayer (0, 0, 0)" by code_simp
  have h4: "0 < voxels_per_block exampleIntegrator" "7 < voxels_per_block exampleIntegrator"
    by code_simp+
  have at: "voxelAt exampleLayer (0, 0, 0) 0 = Some freeVoxel"
    "voxelAt exampleLayer (0, 0, 0) 7 = Some freeVoxel" by code_simp+
  have p0: "promotion_condition exampleIntegrator 10 exampleLayer (0, 0, 0) 0 freeVoxel"
    by code_simp
  have p7: "\<not> promotion_condition exampleIntegrator 10 exampleLayer (0, 0, 0) 7 freeVoxel"
    by code_simp
  have nf: "\<not> ever_free freeVoxel" by code_simp
  from makeEverFree_promotes_iff[OF h1 h2 h3 h4(1), of 10] at(1) p0 obtain L' v0 where
    L': "makeEverFree exampleIntegrator (0, 0, 0) 10 exampleLayer = Some L'"
      "voxelAt L' (0, 0, 0) 0 = Some v0" "ever_free v0" by auto
  from makeEverFree_promotes_iff[OF h1 h2 h3 h4(2), of 10] at(2) p7 nf L'(1) obtain v7 where
    "voxelAt L' (0, 0, 0) 7 = Some v7" "\<not> ever_free v7" by auto
  with h1 h2 h3 h4(2) p0 p7 L' show ?thesis by blast
qed

text \<open>
  With "observed" read as "positive weight" the equivalence fails: the voxel of
  \<open>faintLayer\<close> at the origin has the positive weight \<open>5e-7\<close>, is not ever-free, has never
  been occupied, and all its neighbours are observed and were never occupied, yet
  \<open>makeEverFree\<close> skips it.
\<close>

theorem makeEverFree_positive_weight_counterexample:
  "voxelAt faintLayer (0, 0, 0) 0 = Some faintVoxel
   \<and> positive_weight_promotion_condition exampleIntegrator 10 faintLayer (0, 0, 0) 0 faintVoxel
   \<and> everFreeAfter (makeEverFree exampleIntegrator (0, 0, 0) 10 faintLayer) (0, 0, 0) 0 = Some False"
  by code_simp

subsection \<open>The per-frame update\<close>

text \<open>
  C9. For every cell touched by the per-frame ever-free update (every cell of an updated
  block): if the cell has not been sensor-occupied for more than \<open>temporal_buffer\<close> frames
  (\<open>last_lidar_occupied < frame_counter - temporal_buffer\<close>), its \<open>dynamic\<close> flag is false
  after that update.
\<close>

theorem updateEverFreeVoxels_clears_dynamic:
  assumes "update_ok I L" and "b \<in> set (getAllUpdatedBlocks L)"
    and "voxelAt L b index = Some v" and "index < voxels_per_block I"
    and "last_lidar_occupied v < f - temporal_buffer (config I)"
  shows "\<exists>L' v'. updateEverFreeVoxels I f L = Some L'
            \<and> voxelAt L' b index = Some v' \<and> \<not> dynamic v'"
proof -
  note rel = no_new_dynamic_refl no_new_dynamic_trans
  note v = assms(3)
  from updateEverFreeVoxels_total[OF assms(1), of f] obtain L' where
    L': "updateEverFreeVoxels I f L = Some L'" by blast
  then obtain L1 where
    A: "forEach (getAllUpdatedBlocks L) (updateEverFreeVoxels_block I f) L = Some L1"
    and B: "L' = L1 \<or> forEach (getAllUpdatedBlocks L) (\<lambda>index. makeEverFree I index f) L1 = Some L'"
    by (auto simp: updateEverFreeVoxels_def updateEverFreeVoxels_remove_occupied_def Let_def
             split: option.splits if_splits)
  \<comment> \<open>the blocks before \<open>b\<close>, the block \<open>b\<close>, the blocks after it\<close>
  from forEach_split[OF A assms(2)] obtain ys zs La Lb where
    ys: "forEach ys (updateEverFreeVoxels_block I f) L = Some La"
    and blk: "updateEverFreeVoxels_block I f b La = Some Lb"
    and zs: "forEach zs (updateEverFreeVoxels_block I f) Lb = Some L1"
    by blast
  from ys have "no_new_dynamic L La"
    by (rule forEach_rel) (auto intro: rel updateEverFreeVoxels_block_no_new_dynamic)
  from no_new_dynamicD[OF this v] obtain va where
    va: "voxelAt La b index = Some va" "last_lidar_occupied va = last_lidar_occupied v" by blast
  \<comment> \<open>inside the block: the voxels before \<open>index\<close>, the voxel, the voxels after it\<close>
  from va(1) have "getBlockPtrByIndex La b \<noteq> None"
    by (auto simp: voxelAt_def split: option.splits)
  with blk have loop: "forEach [0..<voxels_per_block I] (updateEverFreeVoxels_voxel I f b) La = Some Lb"
    by (auto simp: updateEverFreeVoxels_block_def)
  from assms(4) have "index \<in> set [0..<voxels_per_block I]" by simp
  from forEach_split[OF loop this] obtain ks js Lc Ld where
    ks: "forEach ks (updateEverFreeVoxels_voxel I f b) La = Some Lc"
    and step: "updateEverFreeVoxels_voxel I f b index Lc = Some Ld"
    and js: "forEach js (updateEverFreeVoxels_voxel I f b) Ld = Some Lb"
    by blast
  from ks have "no_new_dynamic La Lc"
    by (rule forEach_rel) (auto intro: rel updateEverFreeVoxels_voxel_no_new_dynamic)
  from no_new_dynamicD[OF this va(1)] va(2) obtain vc where
    vc: "voxelAt Lc b index = Some vc" "last_lidar_occupied vc = last_lidar_occupied v" by auto
  from js have r1: "no_new_dynamic Ld Lb"
    by (rule forEach_rel) (auto intro: rel updateEverFreeVoxels_voxel_no_new_dynamic)
  from zs have r2: "no_new_dynamic Lb L1"
    by (rule forEach_rel) (auto intro: rel updateEverFreeVoxels_block_no_new_dynamic)
  from B have r3: "no_new_dynamic L1 L'"
  proof
    assume "L' = L1" then show ?thesis by (simp add: no_new_dynamic_refl)
  next
    assume "forEach (getAllUpdatedBlocks L) (\<lambda>index. makeEverFree I index f) L1 = Some L'"
    then show ?thesis
      by (rule forEach_rel) (auto intro: rel makeEverFree_no_new_dynamic)
  qed
  from r1 r2 r3 have after: "no_new_dynamic Ld L'" using no_new_dynamic_trans by blast
  from assms(5) vc(2) have "last_lidar_occupied vc < f - temporal_buffer (config I)" by simp
  from updateEverFreeVoxels_voxel_clears_dynamic[OF step vc(1) this] obtain vd where
    vd: "voxelAt Ld b index = Some vd" "\<not> dynamic vd" by blast
  from no_new_dynamicD[OF after vd(1)] vd(2) obtain v' where
    "voxelAt L' b index = Some v'" "\<not> dynamic v'" by blast
  with L' show ?thesis by blast
qed

text \<open>
  The voxel at the origin of \<open>dynamicLayer\<close> is flagged dynamic and was last hit by the
  sensor in frame 0; with \<open>temporal_buffer = 2\<close> the update of frame 10 clears the flag.
\<close>

theorem updateEverFreeVoxels_clears_dynamic_witness:
  "update_ok exampleIntegrator dynamicLayer
   \<and> (0, 0, 0) \<in> set (getAllUpdatedBlocks dynamicLayer)
   \<and> voxelAt dynamicLayer (0, 0, 0) 0 = Some dynamicVoxel \<and> dynamic dynamicVoxel
   \<and> 0 < voxels_per_block exampleIntegrator
   \<and> last_lidar_occupied dynamicVoxel < 10 - temporal_buffer (config exampleIntegrator)
   \<and> (\<exists>L' v'. updateEverFreeVoxels exampleIntegrator 10 dynamicLayer = Some L'
          \<and> voxelAt L' (0, 0, 0) 0 = Some v' \<and> \<not> dynamic v')"
proof -
  have h1: "update_ok exampleIntegrator dynamicLayer" by code_simp
  have h2: "(0, 0, 0) \<in> set (getAllUpdatedBlocks dynamicLayer)" by code_simp
  have h3: "voxelAt dynamicLayer (0, 0, 0) 0 = Some dynamicVoxel" by code_simp
  have h4: "0 < voxels_per_block exampleIntegrator" by code_simp
  have h5: "last_lidar_occupied dynamicVoxel < 10 - temporal_buffer (config exampleIntegrator)"
    by code_simp
  have d: "dynamic dynamicVoxel" by code_simp
  from updateEverFreeVoxels_clears_dynamic[OF h1 h2 h3 h4 h5] h1 h2 h3 h4 h5 d
  show ?thesis by blast
qed

text \<open>
  C6. Invoking \<open>updateEverFreeVoxels\<close> twice with the same frame counter, with no map
  integration and no new occupancy in between, changes nothing the second time: the
  second call leaves every cell (its \<open>ever_free\<close>, \<open>dynamic\<close>, \<open>occ_counter\<close> and
  \<open>last_occupied\<close> among the rest) exactly as the first call left it. The first call
  clears the updated bit of every block it visits (\<open>makeEverFree\<close> ends with it), so the
  second finds no updated block. The configuration is one the constructor accepts: it
  has at least one worker thread.
\<close>

theorem updateEverFreeVoxels_idempotent:
  assumes "checkParams (config I)" and "update_ok I L"
  shows "\<exists>L'. updateEverFreeVoxels I f L = Some L' \<and> updateEverFreeVoxels I f L' = Some L'"
proof -
  from updateEverFreeVoxels_total[OF assms(2), of f] obtain L' where
    L': "updateEverFreeVoxels I f L = Some L'" by blast
  from assms(1) have "num_threads (config I) \<ge> 1" by (simp add: checkParams_def)
  from updateEverFreeVoxels_resets[OF L' this]
  have "updateEverFreeVoxels I f L' = Some L'"
    by (simp add: updateEverFreeVoxels_def updateEverFreeVoxels_remove_occupied_def)
  with L' show ?thesis by blast
qed

theorem updateEverFreeVoxels_idempotent_witness:
  "checkParams (config exampleIntegrator) \<and> update_ok exampleIntegrator occupiedLayer
   \<and> (\<exists>L'. updateEverFreeVoxels exampleIntegrator 10 occupiedLayer = Some L'
          \<and> updateEverFreeVoxels exampleIntegrator 10 L' = Some L')"
proof -
  have h1: "checkParams (config exampleIntegrator)" by code_simp
  have h2: "update_ok exampleIntegrator occupiedLayer" by code_simp
  from updateEverFreeVoxels_idempotent[OF h1 h2, of 10] h1 h2 show ?thesis by blast
qed

subsection \<open>Missing blocks and invalid indices\<close>



subsection \<open>The two integrators\<close>

text \<open>
  C5. The integrator step embedded in the motion detector (\<open>everFreeIntegrationStep\<close>) and
  the standalone integrator (\<open>updateEverFreeVoxels\<close>) implement different update rules:
  for some map and frame counter the two functions leave a cell in different states. They
  read different occupancy fields (\<open>curr_occupied\<close> and \<open>moving\<close> against
  \<open>last_lidar_occupied\<close> and \<open>dynamic\<close>), compare against fixed thresholds
  (\<open>3 * voxel_size / 2\<close> and 2 frames) against configured ones, and test the counter with
  \<open>==\<close> against \<open>>=\<close>. Here the distance thresholds and the counter limits agree. In
  \<open>staleLayer\<close> the cell at the origin is ever-free with the counter 5, beyond the limit 3,
  and its neighbour in the block \<open>(-1, 0, 0)\<close> is ever-free as well. In frame 12 the
  standalone integrator retracts the cell and with it the neighbour, whose block is not
  among the updated ones and is not labelled again; the embedded step finds the counter
  different from the limit, calls no retraction and leaves the neighbour ever-free. This
  holds whatever the two other integrator methods do that the embedded step would call,
  the labelling method of both being \<open>makeEverFree\<close>.
\<close>

theorem integrators_differ:
  "everFreeAfter (everFreeIntegrationStep (exampleDetector counterUpdate retract) 12 staleLayer)
       (-1, 0, 0) 1 = Some True
   \<and> everFreeAfter (updateEverFreeVoxels exampleIntegrator 12 staleLayer) (-1, 0, 0) 1 = Some False"
  by code_simp

text \<open>
  With the counter update and the retraction of the integrator's source file in their
  places, the two functions return different maps.
\<close>

theorem integrators_differ_witness:
  "everFreeIntegrationStep
     (exampleDetector (updateOccupancyCounter exampleConfig)
        (\<lambda>block_index voxel_index fc. removeEverFree exampleIntegrator block_index voxel_index))
     12 staleLayer
   \<noteq> updateEverFreeVoxels exampleIntegrator 12 staleLayer"
  using integrators_differ[of "updateOccupancyCounter exampleConfig"
      "\<lambda>block_index voxel_index fc. removeEverFree exampleIntegrator block_index voxel_index"]
  by auto

subsection \<open>The callback\<close>

text \<open>
  C7, as far as it holds. When the callback meets a failed transform lookup, the frame is
  skipped: no step runs, and the point classifications and everything the steps work on
  stay as they were. The frame counter does change: it is incremented at the very start of
  the callback, exactly once per call, for a dropped frame as for a processed one.
\<close>

theorem pointcloudCallback_dropped_frame:
  "(\<not> lookupTransform S msg (world md) \<longrightarrow>
      pointcloudCallback S c msg md = Some (md\<lparr>frame_counter := frame_counter md + 1\<rparr>))
   \<and> (\<forall>md'. pointcloudCallback S c msg md = Some md' \<longrightarrow>
         frame_counter md' = frame_counter md + 1)"
  by (auto simp: pointcloudCallback_def Let_def split: option.splits if_splits)

theorem pointcloudCallback_dropped_frame_witness:
  "\<not> lookupTransform (loggingCollaborators False 2) () (world initialState)
   \<and> pointcloudCallback (loggingCollaborators False 2) exampleDetectorConfig () initialState
       = Some (initialState\<lparr>frame_counter := 1\<rparr>)
   \<and> frame_counter (initialState\<lparr>frame_counter := 1\<rparr>) = frame_counter initialState + 1"
proof -
  have h: "\<not> lookupTransform (loggingCollaborators False 2) () (world initialState)"
    by code_simp
  have z: "frame_counter initialState = 0" by code_simp
  from pointcloudCallback_dropped_frame[of "loggingCollaborators False 2" "()" initialState
      exampleDetectorConfig] h z
  show ?thesis by simp
qed

text \<open>
  A dropped frame does not leave the state unaffected: the first frame, dropped, takes
  the frame counter from 0 to 1.
\<close>

theorem pointcloudCallback_dropped_frame_counts_counterexample:
  "\<not> lookupTransform (loggingCollaborators False 2) () (world initialState)
   \<and> pointcloudCallback (loggingCollaborators False 2) exampleDetectorConfig () initialState
       \<noteq> Some initialState
   \<and> frame_counter initialState = 0
   \<and> map_option frame_counter
        (pointcloudCallback (loggingCollaborators False 2) exampleDetectorConfig () initialState)
       = Some 1"
  by code_simp

text \<open>
  C4, as far as it holds. In every frame that the callback processes, the steps run in the
  order: preprocessing, (1) the voxel-to-point index builder, (2) the clustering engine,
  (3) the ever-free integration, then evaluation and visualisation where configured,
  (4) the derivation of \<open>filtered_out\<close> from \<open>cluster_level_dynamic\<close> for every point of the
  cloud, and last the integration of the cloud into the map. Clustering is complete before
  the ever-free update begins. For all collaborators, the callback is the composition of
  the steps in this order: each step works on what the step before it left, the
  derivation sets \<open>filtered_out\<close> on the points that are cluster-level dynamic after the
  last of the steps before it and on no other, and the map integration is handed its
  result; the derivation throws when the cloud has more points than there are
  classifications. With collaborators that record each call and the classifications it is
  handed, the record of a frame shows the order and the place of the derivation: the
  ever-free integration, the evaluation and the visualisation see the point that
  clustering marked with \<open>filtered_out\<close> not set, the map integration sees it set.
\<close>

theorem pointcloudCallback_order_of_steps:
  "(lookupTransform S msg (world md) \<longrightarrow>
      pointcloudCallback S c msg md =
        (let fc = frame_counter md + 1;
             pre = processPointcloud S msg (world md);
             cloud = fst (fst pre);
             s1 = step S SetUpVoxel2PointMap msg cloud fc (snd (fst pre), snd pre);
             s2 = step S ClusteringStep msg cloud fc s1;
             s3 = step S EverFreeIntegrationStep msg cloud fc s2;
             s4 = (if evaluate c then step S EvalStep msg cloud fc s3 else s3);
             s5 = (if visualize c then step S VisualizationStep msg cloud fc s4 else s4);
             n = cloud_size S cloud;
             s6 = step S TsdfIntegration msg cloud fc
                    (map deriveFilteredOut (take n (fst s5)) @ drop n (fst s5), snd s5)
         in if n \<le> length (fst s5)
            then Some \<lparr>frame_counter = fc, point_classifications = fst s6, world = snd s6\<rparr>
            else None))
   \<and> pointcloudCallback (tracingCollaborators k) c () tracingState =
        Some \<lparr>frame_counter = 1,
               point_classifications = map deriveFilteredOut (markFirst (replicate k freshPoint)),
               world =
                 [(Preprocessing, replicate k freshPoint),
                  (SetUpVoxel2PointMap, replicate k freshPoint),
                  (ClusteringStep, replicate k freshPoint),
                  (EverFreeIntegrationStep, markFirst (replicate k freshPoint))]
                 @ (if evaluate c then [(EvalStep, markFirst (replicate k freshPoint))] else [])
                 @ (if visualize c
                    then [(VisualizationStep, markFirst (replicate k freshPoint))] else [])
                 @ [(TsdfIntegration,
                     map deriveFilteredOut (markFirst (replicate k freshPoint)))]\<rparr>"
proof (intro conjI impI)
  assume "lookupTransform S msg (world md)"
  then show "pointcloudCallback S c msg md =
        (let fc = frame_counter md + 1;
             pre = processPointcloud S msg (world md);
             cloud = fst (fst pre);
             s1 = step S SetUpVoxel2PointMap msg cloud fc (snd (fst pre), snd pre);
             s2 = step S ClusteringStep msg cloud fc s1;
             s3 = step S EverFreeIntegrationStep msg cloud fc s2;
             s4 = (if evaluate c then step S EvalStep msg cloud fc s3 else s3);
             s5 = (if visualize c then step S VisualizationStep msg cloud fc s4 else s4);
             n = cloud_size S cloud;
             s6 = step S TsdfIntegration msg cloud fc
                    (map deriveFilteredOut (take n (fst s5)) @ drop n (fst s5), snd s5)
         in if n \<le> length (fst s5)
            then Some \<lparr>frame_counter = fc, point_classifications = fst s6, world = snd s6\<rparr>
            else None)"
    by (cases md) (simp add: pointcloudCallback_def Let_def filteredOut_loop_result)
next
  have len: "length (markFirst (replicate k freshPoint)) = k"
    by (cases k) (simp_all add: markFirst_def)
  show "pointcloudCallback (tracingCollaborators k) c () tracingState =
        Some \<lparr>frame_counter = 1,
               point_classifications = map deriveFilteredOut (markFirst (replicate k freshPoint)),
               world =
                 [(Preprocessing, replicate k freshPoint),
                  (SetUpVoxel2PointMap, replicate k freshPoint),
                  (ClusteringStep, replicate k freshPoint),
                  (EverFreeIntegrationStep, markFirst (replicate k freshPoint))]
                 @ (if evaluate c then [(EvalStep, markFirst (replicate k freshPoint))] else [])
                 @ (if visualize c
                    then [(VisualizationStep, markFirst (replicate k freshPoint))] else [])
                 @ [(TsdfIntegration,
                     map deriveFilteredOut (markFirst (replicate k freshPoint)))]\<rparr>"
    by (simp add: pointcloudCallback_def Let_def filteredOut_loop_result tracingCollaborators_def
          tracingState_def len)
qed

text \<open>
  A frame of two points with evaluation and visualisation switched on: the transform is
  found, and the first point is marked by clustering and filtered out before the map
  integration.
\<close>

theorem pointcloudCallback_order_of_steps_witness:
  "lookupTransform (tracingCollaborators 2) () (world tracingState)
   \<and> pointcloudCallback (tracingCollaborators 2)
        (exampleDetectorConfig\<lparr>evaluate := True, visualize := True\<rparr>) () tracingState =
        Some \<lparr>frame_counter = 1,
               point_classifications = [filteredPoint, freshPoint],
               world =
                 [(Preprocessing, [freshPoint, freshPoint]),
                  (SetUpVoxel2PointMap, [freshPoint, freshPoint]),
                  (ClusteringStep, [freshPoint, freshPoint]),
                  (EverFreeIntegrationStep, [markedPoint, freshPoint]),
                  (EvalStep, [markedPoint, freshPoint]),
                  (VisualizationStep, [markedPoint, freshPoint]),
                  (TsdfIntegration, [filteredPoint, freshPoint])]\<rparr>"
proof -
  have h: "lookupTransform (tracingCollaborators 2) () (world tracingState)" by code_simp
  have m: "markFirst [freshPoint, freshPoint] = [markedPoint, freshPoint]"
    "deriveFilteredOut markedPoint = filteredPoint" "deriveFilteredOut freshPoint = freshPoint"
    by code_simp+
  have r: "replicate 2 freshPoint = [freshPoint, freshPoint]" by code_simp
  from pointcloudCallback_order_of_steps[of "tracingCollaborators 2" "()" tracingState
      "exampleDetectorConfig\<lparr>evaluate := True, visualize := True\<rparr>" 2, THEN conjunct1, THEN mp, OF h] h
  show ?thesis
    by (simp add: Let_def tracingCollaborators_def tracingState_def m r)
qed

text \<open>
  The ever-free update does not complete before clustering begins: in the record of a
  processed frame the clustering step comes first.
\<close>

theorem pointcloudCallback_ever_free_after_clustering_counterexample:
  "map_option world
     (pointcloudCallback (loggingCollaborators True 2) exampleDetectorConfig () initialState)
     = Some [Preprocessing, SetUpVoxel2PointMap, ClusteringStep, EverFreeIntegrationStep,
             TsdfIntegration]
   \<and> \<not> calledBefore EverFreeIntegrationStep ClusteringStep
         [Preprocessing, SetUpVoxel2PointMap, ClusteringStep, EverFreeIntegrationStep,
          TsdfIntegration]
   \<and> calledBefore ClusteringStep EverFreeIntegrationStep
         [Preprocessing, SetUpVoxel2PointMap, ClusteringStep, EverFreeIntegrationStep,
          TsdfIntegration]"
  by code_simp

end
